theory Spec2Isabelle
  imports Complex_Main "HOL-Library.Word"
begin

section \<open>Errors and Python containers\<close>

text \<open>
  Every exception the modelled methods can raise is a value of \<open>error\<close>; a method
  returns \<open>error + 'a\<close> with \<open>Inl\<close> for the exception. \<open>Unmodelled\<close> is not a
  Python exception: it marks the inputs on which numpy continues with values that the
  model does not represent (\<^verbatim>\<open>nan\<close> and \<^verbatim>\<open>inf\<close>, broadcasting of arrays of
  different shapes). Nothing is claimed about the code on such inputs.
\<close>

datatype error =
  TypeError | ValueError | RuntimeError | IndexError | ZeroDivisionError | NameError | Unmodelled

definition bind_err :: "error + 'a \<Rightarrow> ('a \<Rightarrow> error + 'b) \<Rightarrow> error + 'b" where
  "bind_err r f = (case r of Inl e \<Rightarrow> Inl e | Inr v \<Rightarrow> f v)"

text \<open>\<^verbatim>\<open>xs[i]\<close> for \<open>i \<ge> 0\<close>, and \<^verbatim>\<open>xs[-1]\<close>.\<close>

definition item :: "'a list \<Rightarrow> nat \<Rightarrow> error + 'a" where
  "item xs i = (if i < length xs then Inr (xs ! i) else Inl IndexError)"

definition item_last :: "'a list \<Rightarrow> error + 'a" where
  "item_last xs = (if xs = [] then Inl IndexError else Inr (last xs))"

text \<open>\<^verbatim>\<open>int(x)\<close> on a float truncates towards zero.\<close>

definition py_int :: "real \<Rightarrow> int" where
  "py_int x = (if 0 \<le> x then \<lfloor>x\<rfloor> else \<lceil>x\<rceil>)"

text \<open>\<^verbatim>\<open>xs[k]\<close> for an integer \<open>k\<close>: negative indices count from the end.\<close>

definition item_int :: "'a list \<Rightarrow> int \<Rightarrow> error + 'a" where
  "item_int xs k =
     (let n = int (length xs); j = (if k < 0 then n + k else k)
      in if 0 \<le> j \<and> j < n then Inr (xs ! nat j) else Inl IndexError)"

section \<open>Masked arrays\<close>

text \<open>
  A 2-D array is a list of rows. A numpy masked array is modelled as one grid whose
  elements pair the value with its mask flag (\<open>True\<close>: the value is missing), so that
  \<^verbatim>\<open>.data\<close> and \<^verbatim>\<open>.mask\<close> always have the same shape. The rows of a grid are
  taken to have equal length, as in a numpy array.
\<close>

type_synonym 'a grid = "'a list list"

type_synonym marray = "(real \<times> bool) grid"

definition shape_of :: "'a grid \<Rightarrow> nat \<times> nat" where
  "shape_of g = (length g, case g of [] \<Rightarrow> 0 | r # _ \<Rightarrow> length r)"

definition same_shape :: "'a grid \<Rightarrow> 'b grid \<Rightarrow> bool" where
  "same_shape a b = (map length a = map length b)"

definition grid_map :: "('a \<Rightarrow> 'b) \<Rightarrow> 'a grid \<Rightarrow> 'b grid" where
  "grid_map f g = map (map f) g"

definition grid_map2 :: "('a \<Rightarrow> 'b \<Rightarrow> 'c) \<Rightarrow> 'a grid \<Rightarrow> 'b grid \<Rightarrow> 'c grid" where
  "grid_map2 f a b = map2 (map2 f) a b"

definition full :: "nat \<times> nat \<Rightarrow> 'a \<Rightarrow> 'a grid" where
  "full s v = replicate (fst s) (replicate (snd s) v)"

definition data :: "marray \<Rightarrow> real grid" where
  "data a = grid_map fst a"

text \<open>\<^verbatim>\<open>np.ma.getmaskarray(a)\<close>; the field is called \<^verbatim>\<open>mask\<close> in numpy.\<close>

definition msk :: "marray \<Rightarrow> bool grid" where
  "msk a = grid_map snd a"

text \<open>\<^verbatim>\<open>np.ma.ones(shape)\<close> and \<^verbatim>\<open>np.ma.zeros(shape)\<close>: nothing is masked.\<close>

definition ma_ones :: "nat \<times> nat \<Rightarrow> marray" where
  "ma_ones s = full s (1, False)"

definition ma_zeros :: "nat \<times> nat \<Rightarrow> marray" where
  "ma_zeros s = full s (0, False)"

text \<open>\<^verbatim>\<open>a[i, j]\<close> on a masked array: the constant \<^verbatim>\<open>masked\<close> (here \<open>None\<close>) where
  the mask is set, the value otherwise.\<close>

definition getitem :: "marray \<Rightarrow> nat \<Rightarrow> nat \<Rightarrow> error + real option" where
  "getitem a i j =
     (if i < length a \<and> j < length (a ! i)
      then Inr (case a ! i ! j of (v, m) \<Rightarrow> if m then None else Some v)
      else Inl IndexError)"

text \<open>
  Arithmetic of \<^verbatim>\<open>numpy.ma\<close>. The mask of a result is the disjunction of the
  operands' masks; where the result is masked, its data is the data of the first
  operand (numpy copies it back there). Operands of different shapes are not modelled.
\<close>

definition ma_binop :: "(real \<Rightarrow> real \<Rightarrow> real) \<Rightarrow> marray \<Rightarrow> marray \<Rightarrow> error + marray" where
  "ma_binop f a b =
     (if same_shape a b
      then Inr (grid_map2 (\<lambda>(x, m) (y, n). (if m \<or> n then x else f x y, m \<or> n)) a b)
      else Inl Unmodelled)"

text \<open>A scalar on the left (\<^verbatim>\<open>s * a\<close>, \<^verbatim>\<open>1 - a\<close>) and on the right
  (\<^verbatim>\<open>a / s\<close>, \<^verbatim>\<open>a - s\<close>; for the division \<open>s \<noteq> 0\<close>).\<close>

definition ma_lscalar :: "(real \<Rightarrow> real \<Rightarrow> real) \<Rightarrow> real \<Rightarrow> marray \<Rightarrow> marray" where
  "ma_lscalar f s a = grid_map (\<lambda>(y, n). (if n then s else f s y, n)) a"

definition ma_rscalar :: "(real \<Rightarrow> real \<Rightarrow> real) \<Rightarrow> marray \<Rightarrow> real \<Rightarrow> marray" where
  "ma_rscalar f a s = grid_map (\<lambda>(x, m). (if m then x else f x s, m)) a"

text \<open>\<^verbatim>\<open>np.ma.mask_or(m1, m2)\<close>.\<close>

definition mask_or :: "bool grid \<Rightarrow> bool grid \<Rightarrow> error + bool grid" where
  "mask_or m1 m2 =
     (if same_shape m1 m2 then Inr (grid_map2 (\<or>) m1 m2) else Inl Unmodelled)"

text \<open>The loop \<^verbatim>\<open>for chn in chans: selfmask = np.ma.mask_or(selfmask, chn.mask)\<close>.\<close>

fun mask_or_all :: "bool grid \<Rightarrow> marray list \<Rightarrow> error + bool grid" where
  "mask_or_all m [] = Inr m"
| "mask_or_all m (chn # chans) = bind_err (mask_or m (msk chn)) (\<lambda>m'. mask_or_all m' chans)"

section \<open>Colour-space arithmetic\<close>

text \<open>
  The module-level functions \<^verbatim>\<open>rgb2ycbcr\<close> and \<^verbatim>\<open>ycbcr2rgb\<close> of
  \<^verbatim>\<open>trollimage/image.py\<close>, on scalars (as they are applied to the entries of
  \<^verbatim>\<open>fill_value\<close>). Python floats are modelled as real numbers, so every statement
  below is about exact arithmetic.
\<close>

definition kb :: real where
  "kb = 0.114"

definition kr :: real where
  "kr = 0.299"

definition rgb2ycbcr :: "real \<Rightarrow> real \<Rightarrow> real \<Rightarrow> real \<times> real \<times> real" where
  "rgb2ycbcr r g b =
     (let y = kr * r + (1 - kr - kb) * g + kb * b;
          cb = 1 / (2 * (1 - kb)) * (b - y);
          cr = 1 / (2 * (1 - kr)) * (r - y)
      in (y, cb, cr))"

definition ycbcr2rgb :: "real \<Rightarrow> real \<Rightarrow> real \<Rightarrow> real \<times> real \<times> real" where
  "ycbcr2rgb y cb cr =
     (let r = 2 * cr / (1 - kr) + y;
          b = 2 * cb / (1 - kb) + y;
          g = (y - kr * r - kb * b) / (1 - kr - kb)
      in (r, g, b))"


text \<open>The same two functions on masked arrays, operation by operation.\<close>

definition rgb2ycbcr_ma ::
  "marray \<Rightarrow> marray \<Rightarrow> marray \<Rightarrow> error + marray \<times> marray \<times> marray" where
  "rgb2ycbcr_ma r g b =
     bind_err (ma_binop (+) (ma_lscalar (*) kr r) (ma_lscalar (*) (1 - kr - kb) g)) (\<lambda>t.
     bind_err (ma_binop (+) t (ma_lscalar (*) kb b)) (\<lambda>y.
     bind_err (ma_binop (-) b y) (\<lambda>by.
     bind_err (ma_binop (-) r y) (\<lambda>ry.
       Inr (y, ma_lscalar (*) (1 / (2 * (1 - kb))) by,
               ma_lscalar (*) (1 / (2 * (1 - kr))) ry)))))"

definition ycbcr2rgb_ma ::
  "marray \<Rightarrow> marray \<Rightarrow> marray \<Rightarrow> error + marray \<times> marray \<times> marray" where
  "ycbcr2rgb_ma y cb cr =
     bind_err (ma_binop (+) (ma_rscalar (/) (ma_lscalar (*) 2 cr) (1 - kr)) y) (\<lambda>r.
     bind_err (ma_binop (+) (ma_rscalar (/) (ma_lscalar (*) 2 cb) (1 - kb)) y) (\<lambda>b.
     bind_err (ma_binop (-) y (ma_lscalar (*) kr r)) (\<lambda>t.
     bind_err (ma_binop (-) t (ma_lscalar (*) kb b)) (\<lambda>u.
       Inr (r, ma_rscalar (/) u (1 - kr - kb), b)))))"

section \<open>The image\<close>

text \<open>
  The attributes of class \<^verbatim>\<open>Image\<close> that the modelled methods read or write
  (\<^verbatim>\<open>info\<close> is never read). A palette entry is a tuple of the elements read from
  the channels, each a number or the constant \<^verbatim>\<open>masked\<close> (\<open>None\<close>).
\<close>

record image =
  channels :: "marray list"
  mode :: string
  width :: nat
  height :: nat
  fill_value :: "real list option"
  palette :: "real option list list option"
  shape :: "nat \<times> nat"
  secondary_mode :: string

definition modes :: "string list" where
  "modes = [''L'', ''LA'', ''RGB'', ''RGBA'', ''YCbCr'', ''YCbCrA'', ''P'', ''PA'']"

text \<open>\<^verbatim>\<open>s.endswith("A")\<close>.\<close>

definition endswith_A :: "string \<Rightarrow> bool" where
  "endswith_A s = (s \<noteq> [] \<and> last s = CHR ''A'')"

definition is_empty :: "image \<Rightarrow> error + bool" where
  "is_empty img =
     (if (channels img = [] \<and> shape img \<noteq> (0, 0)) \<or> (channels img \<noteq> [] \<and> shape img = (0, 0))
      then Inl RuntimeError
      else Inr (channels img = [] \<and> shape img = (0, 0)))"

definition check_modes :: "image \<Rightarrow> string list \<Rightarrow> error + unit" where
  "check_modes img ms = (if mode img \<in> set ms then Inr () else Inl ValueError)"

section \<open>Mode conversions\<close>

definition rgb2ycbcr_conv :: "image \<Rightarrow> string \<Rightarrow> error + image" where
  "rgb2ycbcr_conv img m =
     bind_err (check_modes img [''RGB'', ''RGBA'']) (\<lambda>_.
     bind_err (item (channels img) 0) (\<lambda>c0.
     bind_err (item (channels img) 1) (\<lambda>c1.
     bind_err (item (channels img) 2) (\<lambda>c2.
     bind_err (rgb2ycbcr_ma c0 c1 c2) (\<lambda>(y, cb, cr).
     bind_err (case fill_value img of None \<Rightarrow> Inr None
               | Some fv \<Rightarrow>
                   bind_err (item fv 0) (\<lambda>f0.
                   bind_err (item fv 1) (\<lambda>f1.
                   bind_err (item fv 2) (\<lambda>f2.
                     case rgb2ycbcr f0 f1 f2 of (fy, fcb, fcr) \<Rightarrow>
                       Inr (Some ([fy, fcb, fcr] @ drop 3 fv)))))) (\<lambda>fv'.
       Inr (img\<lparr>channels := (channels img)[0 := y, 1 := cb, 2 := cr],
                 fill_value := fv', mode := m\<rparr>)))))))"

definition ycbcr2rgb_conv :: "image \<Rightarrow> string \<Rightarrow> error + image" where
  "ycbcr2rgb_conv img m =
     bind_err (check_modes img [''YCbCr'', ''YCbCrA'']) (\<lambda>_.
     bind_err (item (channels img) 0) (\<lambda>c0.
     bind_err (item (channels img) 1) (\<lambda>c1.
     bind_err (item (channels img) 2) (\<lambda>c2.
     bind_err (ycbcr2rgb_ma c0 c1 c2) (\<lambda>(r, g, b).
     bind_err (case fill_value img of None \<Rightarrow> Inr None
               | Some fv \<Rightarrow>
                   bind_err (item fv 0) (\<lambda>f0.
                   bind_err (item fv 1) (\<lambda>f1.
                   bind_err (item fv 2) (\<lambda>f2.
                     case ycbcr2rgb f0 f1 f2 of (fr, fg, fb) \<Rightarrow>
                       Inr (Some ([fr, fg, fb] @ drop 3 fv)))))) (\<lambda>fv'.
       Inr (img\<lparr>channels := (channels img)[0 := r, 1 := g, 2 := b],
                 fill_value := fv', mode := m\<rparr>)))))))"

subsection \<open>Palette quantization\<close>

text \<open>
  The local variables of \<^verbatim>\<open>_to_p\<close> that its loops update. \<open>idx\<close> is \<open>None\<close>
  while the Python variable is unbound.
\<close>

record pstate =
  palette_acc :: "real option list list"
  color_nb :: nat
  idx :: "nat option"

text \<open>
  \<^verbatim>\<open>next(idx for idx in range(len(palette)) if palette[idx] == current_col)\<close>:
  the first index whose entry equals the colour, \<open>None\<close> for \<^verbatim>\<open>StopIteration\<close>.
  Two tuples are equal when they agree element by element; \<^verbatim>\<open>masked\<close> equals only
  itself.
\<close>

definition first_match :: "real option list list \<Rightarrow> real option list \<Rightarrow> nat option" where
  "first_match pal col =
     (case filter (\<lambda>i. pal ! i = col) [0..<length pal] of [] \<Rightarrow> None | i # _ \<Rightarrow> Some i)"

text \<open>
  The \<^verbatim>\<open>try\<close>/\<^verbatim>\<open>except StopIteration\<close> block. The value that \<^verbatim>\<open>next\<close>
  returns is not assigned, and the \<^verbatim>\<open>idx\<close> of a generator expression is local to
  it: when the colour is found, the method's \<^verbatim>\<open>idx\<close> keeps the value it had.
\<close>

definition register_color :: "pstate \<Rightarrow> real option list \<Rightarrow> pstate" where
  "register_color s col =
     (case first_match (palette_acc s) col of
        Some found \<Rightarrow> s
      | None \<Rightarrow> s\<lparr>idx := Some (color_nb s),
                    palette_acc := palette_acc s @ [col],
                    color_nb := color_nb s + 1\<rparr>)"

fun mapM_err :: "('a \<Rightarrow> error + 'b) \<Rightarrow> 'a list \<Rightarrow> error + 'b list" where
  "mapM_err f [] = Inr []"
| "mapM_err f (x # xs) = bind_err (f x) (\<lambda>y. bind_err (mapM_err f xs) (\<lambda>ys. Inr (y # ys)))"

fun foldM_err :: "('a \<Rightarrow> 's \<Rightarrow> error + 's) \<Rightarrow> 'a list \<Rightarrow> 's \<Rightarrow> error + 's" where
  "foldM_err f [] s = Inr s"
| "foldM_err f (x # xs) s = bind_err (f x s) (foldM_err f xs)"

text \<open>\<^verbatim>\<open>a[i, j] = v\<close> on a masked array without masked elements.\<close>

definition setitem :: "marray \<Rightarrow> nat \<Rightarrow> nat \<Rightarrow> real \<Rightarrow> error + marray" where
  "setitem a i j v =
     (if i < length a \<and> j < length (a ! i)
      then Inr (a[i := (a ! i)[j := (v, False)]])
      else Inl IndexError)"

text \<open>\<^verbatim>\<open>a.mask = m\<close>.\<close>

definition set_mask :: "marray \<Rightarrow> bool grid \<Rightarrow> error + marray" where
  "set_mask a m =
     (if same_shape a m then Inr (grid_map2 (\<lambda>(v, _) k. (v, k)) a m) else Inl Unmodelled)"

definition to_p_pixel ::
  "marray list \<Rightarrow> nat \<Rightarrow> nat \<Rightarrow> pstate \<times> marray \<Rightarrow> error + pstate \<times> marray" where
  "to_p_pixel chans i j = (\<lambda>(s, new_chn).
     bind_err (mapM_err (\<lambda>chn. getitem chn i j) chans) (\<lambda>current_col.
       let s' = register_color s current_col
       in case idx s' of
            None \<Rightarrow> Inl NameError
          | Some k \<Rightarrow> bind_err (setitem new_chn i j (real k)) (\<lambda>n'. Inr (s', n'))))"

definition to_p_loop ::
  "marray list \<Rightarrow> nat \<Rightarrow> nat \<Rightarrow> pstate \<times> marray \<Rightarrow> error + pstate \<times> marray" where
  "to_p_loop chans h w =
     foldM_err (\<lambda>i. foldM_err (\<lambda>j. to_p_pixel chans i j) [0..<w]) [0..<h]"

definition to_p :: "image \<Rightarrow> string \<Rightarrow> error + image" where
  "to_p img m =
     bind_err (if endswith_A (mode img)
               then bind_err (item_last (channels img)) (\<lambda>a.
                      Inr (butlast (channels img), Some a, butlast (mode img)))
               else Inr (channels img, None, mode img)) (\<lambda>(chans, alpha, sec).
     bind_err (item chans 0) (\<lambda>c0.
     bind_err (mask_or_all (msk c0) (drop 1 chans)) (\<lambda>selfmask.
     bind_err (to_p_loop chans (height img) (width img)
                 (\<lparr>palette_acc = [], color_nb = 0, idx = None\<rparr>, ma_zeros (shape img)))
       (\<lambda>(s, new_chn).
     bind_err (case fill_value img of
                 None \<Rightarrow> Inr (s, None)
               | Some fv \<Rightarrow>
                   bind_err (if endswith_A (mode img)
                             then bind_err (item_last fv) (\<lambda>fa. Inr (butlast fv, [fa]))
                             else Inr (fv, [])) (\<lambda>(cc, fill_alpha).
                     let s' = register_color s (map Some cc)
                     in case idx s' of
                          None \<Rightarrow> Inl NameError
                        | Some k \<Rightarrow> Inr (s', Some (real k # fill_alpha)))) (\<lambda>(s', fv').
     bind_err (set_mask new_chn selfmask) (\<lambda>new_chn'.
       Inr (img\<lparr>secondary_mode := sec, fill_value := fv',
                 palette := Some (palette_acc s'),
                 channels := (case alpha of None \<Rightarrow> [new_chn'] | Some a \<Rightarrow> [new_chn', a]),
                 mode := m\<rparr>)))))))"

subsection \<open>Palette expansion\<close>

text \<open>
  \<^verbatim>\<open>np.interp(x, xp, fp)\<close> for nondecreasing \<open>xp\<close>, the knots given as the pairs
  \<open>zip xp fp\<close>: \<open>fp\<close> of the nearest end outside the knots, linear between the knot
  at or below \<open>x\<close> and the next one inside.
\<close>

fun np_interp :: "real \<Rightarrow> (real \<times> real) list \<Rightarrow> real" where
  "np_interp x [] = 0"
| "np_interp x [(a, fa)] = fa"
| "np_interp x ((a, fa) # (b, fb) # rest) =
     (if x < b then (if x \<le> a then fa else fa + (fb - fa) / (b - a) * (x - a))
      else np_interp x ((b, fb) # rest))"

text \<open>
  Everything \<^verbatim>\<open>_from_p\<close> does before its last statement \<^verbatim>\<open>self.convert(mode)\<close>.
  A \<^verbatim>\<open>masked\<close> palette element becomes \<^verbatim>\<open>nan\<close> in \<^verbatim>\<open>cdfs\<close>: not modelled.
\<close>

definition unmasked :: "real option \<Rightarrow> error + real" where
  "unmasked v = (case v of None \<Rightarrow> Inl Unmodelled | Some x \<Rightarrow> Inr x)"

definition from_p_expand :: "image \<Rightarrow> error + image" where
  "from_p_expand img =
     bind_err (check_modes img [''P'', ''PA'']) (\<lambda>_.
     bind_err (if endswith_A (mode img)
               then bind_err (item_last (channels img)) (\<lambda>a. Inr (Some a))
               else Inr None) (\<lambda>alpha.
     bind_err (item (channels img) 0) (\<lambda>color_chan.
     bind_err (case palette img of None \<Rightarrow> Inl TypeError | Some pal \<Rightarrow> Inr pal) (\<lambda>pal.
     bind_err (item pal 0) (\<lambda>p0.
     bind_err (mapM_err (\<lambda>i.
                 bind_err (mapM_err (\<lambda>j. bind_err (item (pal ! j) i) unmasked)
                             [0..<length pal]) (\<lambda>cdf.
                   Inr (grid_map (\<lambda>(v, k).
                          (np_interp v (zip (map real [0..<length pal]) cdf), k)) color_chan)))
                 [0..<length p0]) (\<lambda>chans.
     bind_err (case fill_value img of
                 None \<Rightarrow> Inr None
               | Some fv \<Rightarrow>
                   (case alpha of
                      Some _ \<Rightarrow>
                        bind_err (item_last fv) (\<lambda>fill_alpha.
                        bind_err (item fv 0) (\<lambda>f0.
                        bind_err (item_int pal (py_int f0)) (\<lambda>entry.
                        bind_err (mapM_err unmasked entry) (\<lambda>cols.
                          Inr (Some (cols @ [fill_alpha]))))))
                    | None \<Rightarrow>
                        bind_err (item fv 0) (\<lambda>f0.
                        bind_err (item_int pal (py_int f0)) (\<lambda>entry.
                        bind_err (mapM_err unmasked entry) (\<lambda>cols.
                          Inr (Some cols)))))) (\<lambda>fv'.
       Inr (case alpha of
              None \<Rightarrow> img\<lparr>fill_value := fv', mode := secondary_mode img, channels := chans\<rparr>
            | Some a \<Rightarrow> img\<lparr>fill_value := fv', mode := secondary_mode img @ ''A'',
                              channels := chans @ [a]\<rparr>))))))))"

subsection \<open>Luminance\<close>

definition l2rgb :: "image \<Rightarrow> string \<Rightarrow> error + image" where
  "l2rgb img m =
     bind_err (check_modes img [''L'', ''LA'']) (\<lambda>_.
     bind_err (item (channels img) 0) (\<lambda>c0.
       let chs = channels img @ [c0, c0];
           fv' = map_option (\<lambda>fv. concat (replicate 3 (take 1 fv)) @ drop 1 fv) (fill_value img)
       in bind_err (if mode img = ''LA''
                    then bind_err (item chs 3) (\<lambda>c3.
                         bind_err (item chs 1) (\<lambda>c1. Inr (chs[1 := c3, 3 := c1])))
                    else Inr chs) (\<lambda>chs'.
            Inr (img\<lparr>channels := chs', fill_value := fv', mode := m\<rparr>))))"

definition rgb2l :: "image \<Rightarrow> string \<Rightarrow> error + image" where
  "rgb2l img m =
     bind_err (check_modes img [''RGB'', ''RGBA'']) (\<lambda>_.
     bind_err (item (channels img) 0) (\<lambda>r.
     bind_err (item (channels img) 1) (\<lambda>g.
     bind_err (item (channels img) 2) (\<lambda>b.
     bind_err (ma_binop (+) (ma_lscalar (*) kr r) (ma_lscalar (*) (1 - kr - kb) g)) (\<lambda>t.
     bind_err (ma_binop (+) t (ma_lscalar (*) kb b)) (\<lambda>y.
     bind_err (case fill_value img of None \<Rightarrow> Inr None
               | Some fv \<Rightarrow>
                   bind_err (item fv 0) (\<lambda>f0.
                   bind_err (item fv 1) (\<lambda>f1.
                   bind_err (item fv 2) (\<lambda>f2.
                     Inr (Some (fst (rgb2ycbcr f0 f1 f2) # drop 3 fv)))))) (\<lambda>fv'.
       Inr (img\<lparr>fill_value := fv', channels := y # drop 3 (channels img), mode := m\<rparr>))))))))"

definition ycbcr2l :: "image \<Rightarrow> string \<Rightarrow> error + image" where
  "ycbcr2l img m =
     bind_err (check_modes img [''YCbCr'', ''YCbCrA'']) (\<lambda>_.
     bind_err (item (channels img) 0) (\<lambda>c0.
     bind_err (case fill_value img of None \<Rightarrow> Inr None
               | Some fv \<Rightarrow> bind_err (item fv 0) (\<lambda>f0. Inr (Some (f0 # drop 3 fv)))) (\<lambda>fv'.
       Inr (img\<lparr>channels := c0 # drop 3 (channels img), fill_value := fv', mode := m\<rparr>))))"

definition l2ycbcr :: "image \<Rightarrow> string \<Rightarrow> error + image" where
  "l2ycbcr img m =
     bind_err (check_modes img [''L'', ''LA'']) (\<lambda>_.
     bind_err (item (channels img) 0) (\<lambda>luma.
     bind_err (set_mask (ma_zeros (shape_of luma)) (msk luma)) (\<lambda>zeros.
     bind_err (case fill_value img of None \<Rightarrow> Inr None
               | Some fv \<Rightarrow> bind_err (item fv 0) (\<lambda>f0. Inr (Some ([f0, 0, 0] @ drop 1 fv)))) (\<lambda>fv'.
       Inr (img\<lparr>channels := [luma, zeros, zeros] @ drop 1 (channels img),
                 fill_value := fv', mode := m\<rparr>)))))"

subsection \<open>convert\<close>

text \<open>The dispatch table \<^verbatim>\<open>cases\<close> of \<^verbatim>\<open>convert\<close>, a dictionary of dictionaries
  of bound methods.\<close>

datatype handler =
  H_rgb2ycbcr | H_rgb2l | H_to_p | H_ycbcr2rgb | H_ycbcr2l | H_l2rgb | H_l2ycbcr | H_from_p

definition cases_table :: "(string \<times> (string \<times> handler) list) list" where
  "cases_table =
     [(''RGB'', [(''YCbCr'', H_rgb2ycbcr), (''L'', H_rgb2l), (''P'', H_to_p)]),
      (''RGBA'', [(''YCbCrA'', H_rgb2ycbcr), (''LA'', H_rgb2l), (''PA'', H_to_p)]),
      (''YCbCr'', [(''RGB'', H_ycbcr2rgb), (''L'', H_ycbcr2l), (''P'', H_to_p)]),
      (''YCbCrA'', [(''RGBA'', H_ycbcr2rgb), (''LA'', H_ycbcr2l), (''PA'', H_to_p)]),
      (''L'', [(''RGB'', H_l2rgb), (''YCbCr'', H_l2ycbcr), (''P'', H_to_p)]),
      (''LA'', [(''RGBA'', H_l2rgb), (''YCbCrA'', H_l2ycbcr), (''PA'', H_to_p)]),
      (''P'', [(''RGB'', H_from_p), (''YCbCr'', H_from_p), (''L'', H_from_p)]),
      (''PA'', [(''RGBA'', H_from_p), (''YCbCrA'', H_from_p), (''LA'', H_from_p)])]"

text \<open>\<^verbatim>\<open>cases[self.mode][mode]\<close>; \<open>None\<close> is the \<^verbatim>\<open>KeyError\<close>.\<close>

definition lookup_case :: "string \<Rightarrow> string \<Rightarrow> handler option" where
  "lookup_case src tgt =
     (case map_of cases_table src of None \<Rightarrow> None | Some row \<Rightarrow> map_of row tgt)"

text \<open>The handlers that do not call \<^verbatim>\<open>convert\<close> again.\<close>

fun direct_handler :: "handler \<Rightarrow> image \<Rightarrow> string \<Rightarrow> error + image" where
  "direct_handler H_rgb2ycbcr = rgb2ycbcr_conv"
| "direct_handler H_rgb2l = rgb2l"
| "direct_handler H_to_p = to_p"
| "direct_handler H_ycbcr2rgb = ycbcr2rgb_conv"
| "direct_handler H_ycbcr2l = ycbcr2l"
| "direct_handler H_l2rgb = l2rgb"
| "direct_handler H_l2ycbcr = l2ycbcr"
| "direct_handler H_from_p = (\<lambda>img m. from_p_expand img)"

text \<open>
  \<^verbatim>\<open>Image.convert\<close>. It calls itself, directly and through \<^verbatim>\<open>_from_p\<close>, and
  nothing in it bounds the recursion for an arbitrary \<^verbatim>\<open>_secondary_mode\<close>; the
  result is \<open>None\<close> when the call does not return.
\<close>

partial_function (option) convert :: "image \<Rightarrow> string \<Rightarrow> (error + image) option" where
  "convert img m =
     (if m = mode img then Some (Inr img)
      else if m \<notin> set modes then Some (Inl ValueError)
      else case is_empty img of
        Inl e \<Rightarrow> Some (Inl e)
      | Inr emp \<Rightarrow>
          if emp then Some (Inr (img\<lparr>mode := m\<rparr>))
          else if m = mode img @ ''A'' then
            Some (bind_err (item (channels img) 0) (\<lambda>c0.
              Inr (img\<lparr>channels := channels img @ [ma_ones (shape_of c0)],
                        fill_value := map_option (\<lambda>fv. fv @ [1]) (fill_value img),
                        mode := m\<rparr>)))
          else if m @ ''A'' = mode img then
            Some (Inr (img\<lparr>channels := butlast (channels img),
                            fill_value := map_option butlast (fill_value img),
                            mode := m\<rparr>))
          else if endswith_A m \<and> \<not> endswith_A (mode img) then
            Option.bind (convert img (mode img @ ''A''))
              (\<lambda>r. case r of Inl e \<Rightarrow> Some (Inl e) | Inr img' \<Rightarrow> convert img' m)
          else if endswith_A (mode img) \<and> \<not> endswith_A m then
            Option.bind (convert img (butlast (mode img)))
              (\<lambda>r. case r of Inl e \<Rightarrow> Some (Inl e) | Inr img' \<Rightarrow> convert img' m)
          else case lookup_case (mode img) m of
            None \<Rightarrow> Some (Inl ValueError)
          | Some h \<Rightarrow>
              if h = H_from_p
              then (case from_p_expand img of
                      Inl e \<Rightarrow> Some (Inl e)
                    | Inr img' \<Rightarrow> convert img' m)
              else Some (direct_handler h img m))"

text \<open>\<^verbatim>\<open>Image._from_p\<close> whole.\<close>

definition from_p :: "image \<Rightarrow> string \<Rightarrow> (error + image) option" where
  "from_p img m =
     (case from_p_expand img of Inl e \<Rightarrow> Some (Inl e) | Inr img' \<Rightarrow> convert img' m)"

declare convert.simps [code]

section \<open>Construction\<close>

text \<open>
  The arguments of \<^verbatim>\<open>Image.__init__\<close> by their Python type: \<^verbatim>\<open>channels\<close> is
  \<^verbatim>\<open>None\<close>, one array, a list or tuple of arrays, or anything else;
  \<^verbatim>\<open>color_range\<close> is \<^verbatim>\<open>None\<close>, a pair or a list of pairs; \<^verbatim>\<open>fill_value\<close>
  is \<^verbatim>\<open>None\<close>, a scalar or a sequence.
\<close>

datatype channels_arg = NoChannels | SingleArray marray | ArrayList "marray list" | BadChannels

datatype range_arg = NoRange | RangePair real real | RangePairs "(real \<times> real) list"

datatype fill_arg = NoFill | FillScalar real | FillList "real list"

text \<open>\<^verbatim>\<open>len(re.findall("[A-Z]", mode))\<close>.\<close>

definition ncap :: "string \<Rightarrow> nat" where
  "ncap m = length (filter (\<lambda>c. 65 \<le> (of_char c :: nat) \<and> (of_char c :: nat) \<le> 90) m)"

text \<open>\<^verbatim>\<open>_add_channel\<close>; a zero-width colour range divides by zero inside numpy.\<close>

definition add_channel :: "image \<Rightarrow> marray \<Rightarrow> real \<Rightarrow> real \<Rightarrow> error + image" where
  "add_channel img chn color_min color_max =
     (if color_max - color_min = 0 then Inl Unmodelled
      else Inr (img\<lparr>channels := channels img @
             [grid_map (\<lambda>(v, m). ((v - color_min) * 1 / (color_max - color_min), m)) chn]\<rparr>))"

definition init_step :: "marray list \<Rightarrow> range_arg \<Rightarrow> nat \<Rightarrow> image \<Rightarrow> error + image" where
  "init_step chs color_range i img =
     bind_err (case color_range of
                 NoRange \<Rightarrow> Inr (0, 1)
               | RangePair lo hi \<Rightarrow> Inl TypeError
               | RangePairs ps \<Rightarrow> bind_err (item ps i) Inr) (\<lambda>(color_min, color_max).
     bind_err (add_channel img (chs ! i) color_min color_max) (\<lambda>img'.
       let s = shape_of (last (channels img'))
       in if s \<noteq> shape_of (hd (channels img')) then Inl ValueError
          else Inr (img'\<lparr>shape := s\<rparr>)))"

definition init ::
  "channels_arg \<Rightarrow> string \<Rightarrow> range_arg \<Rightarrow> fill_arg \<Rightarrow> real option list list option \<Rightarrow>
     error + image" where
  "init chs m color_range fv pal =
     (if chs = BadChannels then Inl TypeError
      else if (case chs of ArrayList cs \<Rightarrow> length cs \<noteq> ncap m | _ \<Rightarrow> False) then Inl ValueError
      else if m \<notin> set modes then Inl ValueError
      else if (case color_range of
                 RangePairs ps \<Rightarrow>
                   (case chs of
                      SingleArray a \<Rightarrow> length ps \<noteq> length a
                    | ArrayList cs \<Rightarrow> length ps \<noteq> length cs
                    | _ \<Rightarrow> True)
               | _ \<Rightarrow> False) then Inl ValueError
      else if (case color_range of
                 RangePairs ps \<Rightarrow> (m = ''L'' \<or> m = ''P'') \<and> length ps \<noteq> ncap m
               | _ \<Rightarrow> False) then Inl ValueError
      else
        let img0 = \<lparr>channels = [], mode = m, width = 0, height = 0,
                    fill_value = (case fv of NoFill \<Rightarrow> None
                                  | FillScalar v \<Rightarrow> Some [v]
                                  | FillList vs \<Rightarrow> Some vs),
                    palette = pal, shape = (0, 0), secondary_mode = ''RGB''\<rparr>
        in case chs of
             ArrayList cs \<Rightarrow>
               bind_err (foldM_err (init_step cs color_range) [0..<length cs] img0) (\<lambda>img.
                 Inr (img\<lparr>height := fst (shape img), width := snd (shape img)\<rparr>))
           | SingleArray a \<Rightarrow>
               bind_err (case color_range of
                           NoRange \<Rightarrow> Inr (0, 1)
                         | RangePair lo hi \<Rightarrow> Inr (lo, hi)
                         | RangePairs ps \<Rightarrow>
                             if length ps < 2 then Inl IndexError else Inl Unmodelled)
                 (\<lambda>(color_min, color_max).
                    add_channel (img0\<lparr>height := fst (shape_of a), width := snd (shape_of a),
                                      shape := shape_of a\<rparr>) a color_min color_max)
           | _ \<Rightarrow> Inr img0)"

section \<open>Finalization\<close>

type_synonym u8array = "(8 word \<times> bool) grid"

text \<open>\<^verbatim>\<open>x.clip(0, 1)\<close> and \<^verbatim>\<open>np.round\<close>, which rounds halves to the even
  neighbour.\<close>

definition clip01 :: "real \<Rightarrow> real" where
  "clip01 v = min 1 (max 0 v)"

definition np_round :: "real \<Rightarrow> int" where
  "np_round x =
     (let f = \<lfloor>x\<rfloor>; d = x - of_int f
      in if d < 1 / 2 then f else if 1 / 2 < d then f + 1 else if even f then f else f + 1)"

definition finalize_chn :: "marray \<Rightarrow> u8array" where
  "finalize_chn chn = grid_map (\<lambda>(v, m). (word_of_int (np_round (clip01 v * 255)), m)) chn"

text \<open>\<^verbatim>\<open>Image._finalize\<close> with the default \<^verbatim>\<open>dtype=np.uint8\<close>. The method
  returns the pair of the new channels and the fill value; the model returns the image
  as the call leaves it as well.\<close>

definition finalize ::
  "image \<Rightarrow> (error + image \<times> u8array list \<times> int list option) option" where
  "finalize img =
     Option.bind (if mode img = ''P'' then convert img ''RGB'' else Some (Inr img))
       (\<lambda>r1. case r1 of
          Inl e \<Rightarrow> Some (Inl e)
        | Inr img1 \<Rightarrow>
            Option.bind (if mode img1 = ''PA'' then convert img1 ''RGBA'' else Some (Inr img1))
              (\<lambda>r2. case r2 of
                 Inl e \<Rightarrow> Some (Inl e)
               | Inr img2 \<Rightarrow>
                   Some (Inr (img2, map finalize_chn (channels img2),
                              map_option (map (\<lambda>col. py_int (col * 255))) (fill_value img2)))))"

section \<open>Compositing\<close>

text \<open>One iteration of the loop of \<^verbatim>\<open>merge\<close>: \<^verbatim>\<open>np.ma.where(selfmask, other, self)\<close>,
  then the mask is replaced by \<^verbatim>\<open>np.logical_and(selfmask, other.mask)\<close>.\<close>

definition merge_chn :: "bool grid \<Rightarrow> marray \<Rightarrow> marray \<Rightarrow> error + marray" where
  "merge_chn selfmask other_chn self_chn =
     (if same_shape selfmask other_chn \<and> same_shape selfmask self_chn
      then Inr (grid_map2 (\<lambda>s ((ov, om), (sv, sm)). (if s then ov else sv, s \<and> om))
                  selfmask (grid_map2 Pair other_chn self_chn))
      else Inl Unmodelled)"

definition merge :: "image \<Rightarrow> image \<Rightarrow> error + image" where
  "merge img other =
     bind_err (is_empty img) (\<lambda>emp.
       if emp then Inl ValueError
       else if mode img \<noteq> mode other then Inl ValueError
       else
         bind_err (item (channels img) 0) (\<lambda>c0.
         bind_err (mask_or_all (msk c0) (drop 1 (channels img))) (\<lambda>selfmask.
         bind_err (foldM_err (\<lambda>i chs.
                     bind_err (item (channels other) i) (\<lambda>oc.
                     bind_err (item chs i) (\<lambda>sc.
                     bind_err (merge_chn selfmask oc sc) (\<lambda>c. Inr (chs[i := c])))))
                     [0..<length (channels img)] (channels img)) (\<lambda>chs.
           Inr (img\<lparr>channels := chs\<rparr>)))))"

section \<open>Enhancement\<close>

text \<open>
  What the methods depend on besides their arguments: whether the optional module
  \<^verbatim>\<open>numexpr\<close> could be imported (the global \<^verbatim>\<open>ne\<close>), and the contents of the
  memory that \<^verbatim>\<open>np.ma.empty_like\<close> hands out uninitialised.
\<close>

record env =
  numexpr :: bool
  uninit :: "nat \<Rightarrow> nat \<Rightarrow> real"

datatype gamma_arg = GammaScalar real | GammaSeq "real list"

datatype invert_arg = InvertFlag bool | InvertSeq "bool list"

datatype stretch_arg = StretchSeq "real list" | StretchStr string | StretchOther

text \<open>A keyword argument is \<^verbatim>\<open>None\<close>, a number or a tuple or list of numbers; the
  dictionary \<^verbatim>\<open>kwargs\<close> lists its items.\<close>

datatype kwval = KNone | KNum real | KSeq "real list"

type_synonym kwargs = "(string \<times> kwval) list"

definition kw_get :: "kwargs \<Rightarrow> string \<Rightarrow> kwval \<Rightarrow> kwval" where
  "kw_get kw k d = (case map_of kw k of None \<Rightarrow> d | Some v \<Rightarrow> v)"

text \<open>A call \<^verbatim>\<open>f(i, **kwargs)\<close> raises \<^verbatim>\<open>TypeError\<close> unless \<^verbatim>\<open>f\<close> has a
  parameter for every key.\<close>

definition kw_keys_ok :: "kwargs \<Rightarrow> string list \<Rightarrow> bool" where
  "kw_keys_ok kw names = list_all (\<lambda>(k, v). k \<in> set names) kw"

text \<open>\<^verbatim>\<open>d.update(kwargs)\<close>.\<close>

definition dict_update :: "kwargs \<Rightarrow> kwargs \<Rightarrow> kwargs" where
  "dict_update d kw = kw @ filter (\<lambda>(k, v). map_of kw k = None) d"

subsection \<open>Inversion and gamma correction\<close>

definition invert :: "image \<Rightarrow> invert_arg \<Rightarrow> error + image" where
  "invert img flags =
     (case flags of
        InvertSeq bs \<Rightarrow>
          if length (channels img) \<noteq> length bs then Inl ValueError
          else Inr (img\<lparr>channels :=
                 map2 (\<lambda>b chn. if b then ma_lscalar (-) 1 chn else chn) bs (channels img)\<rparr>)
      | InvertFlag b \<Rightarrow>
          if b then Inr (img\<lparr>channels := map (ma_lscalar (-) 1) (channels img)\<rparr>)
          else Inr img)"

text \<open>
  \<^verbatim>\<open>x ** e\<close> on floats for \<open>e > 0\<close>; \<open>None\<close> where the model has no value (a
  negative base). With \<^verbatim>\<open>numexpr\<close> the whole expression
  \<^verbatim>\<open>data ** (1.0 / gamma)\<close> is evaluated by that library in IEEE arithmetic, where
  \<open>1.0 / 0.0\<close> is \<^verbatim>\<open>inf\<close> and \<^verbatim>\<open>x ** inf\<close> is \<open>0\<close> for \<open>\<bar>x\<bar> < 1\<close>, \<open>1\<close>
  for \<open>\<bar>x\<bar> = 1\<close> and \<^verbatim>\<open>inf\<close> beyond.
\<close>

definition np_power :: "real \<Rightarrow> real \<Rightarrow> real option" where
  "np_power x e = (if 0 < x then Some (x powr e) else if x = 0 then Some 0 else None)"

definition ne_power :: "real \<Rightarrow> real \<Rightarrow> real option" where
  "ne_power x g =
     (if g = 0 then (if \<bar>x\<bar> < 1 then Some 0 else if \<bar>x\<bar> = 1 then Some 1 else None)
      else np_power x (1 / g))"

definition grid_mapM :: "('a \<Rightarrow> error + 'b) \<Rightarrow> 'a grid \<Rightarrow> error + 'b grid" where
  "grid_mapM f g = mapM_err (mapM_err f) g"

definition lift_value :: "(real \<Rightarrow> real option) \<Rightarrow> real \<times> bool \<Rightarrow> error + real \<times> bool" where
  "lift_value f = (\<lambda>(v, m). case f v of None \<Rightarrow> Inl Unmodelled | Some w \<Rightarrow> Inr (w, m))"

text \<open>The body of the loop of \<^verbatim>\<open>gamma\<close> after the test \<^verbatim>\<open>gamma == 1.0\<close>, for a
  masked array.\<close>

definition gamma_chn :: "env \<Rightarrow> real \<Rightarrow> marray \<Rightarrow> error + marray" where
  "gamma_chn ev g chn =
     (if numexpr ev then grid_mapM (lift_value (\<lambda>v. ne_power v g)) chn
      else if g = 0 then Inl ZeroDivisionError
      else grid_mapM (lift_value (\<lambda>v. np_power v (1 / g))) chn)"

definition gamma_step :: "env \<Rightarrow> real list \<Rightarrow> nat \<Rightarrow> image \<Rightarrow> error + image" where
  "gamma_step ev gamma_list i img =
     (let g = gamma_list ! i
      in if g < 0 then Inl ValueError
         else if g = 1 then Inr img
         else bind_err (gamma_chn ev g (channels img ! i)) (\<lambda>c.
                Inr (img\<lparr>channels := (channels img)[i := c]\<rparr>)))"

definition gamma :: "env \<Rightarrow> image \<Rightarrow> gamma_arg \<Rightarrow> error + image" where
  "gamma ev img g =
     (if (case g of GammaSeq gs \<Rightarrow> length gs \<noteq> length (channels img) | _ \<Rightarrow> False)
      then Inl ValueError
      else
        let gamma_list = (case g of GammaSeq gs \<Rightarrow> gs
                          | GammaScalar x \<Rightarrow> replicate (length (channels img)) x)
        in foldM_err (gamma_step ev gamma_list) [0..<length (channels img)] img)"

subsection \<open>Stretching\<close>

text \<open>\<^verbatim>\<open>a.compressed()\<close>: the valid values in row-major order; the minimum and the
  maximum of a non-empty list.\<close>

definition compressed :: "marray \<Rightarrow> real list" where
  "compressed a = map fst (filter (\<lambda>(v, m). \<not> m) (concat a))"

definition list_min :: "real list \<Rightarrow> real" where
  "list_min xs = fold min (tl xs) (hd xs)"

definition list_max :: "real list \<Rightarrow> real" where
  "list_max xs = fold max (tl xs) (hd xs)"

text \<open>\<^verbatim>\<open>np.percentile(a, q)\<close> for a non-empty \<open>a\<close>, linear interpolation between
  the order statistics.\<close>

definition np_percentile :: "real list \<Rightarrow> real \<Rightarrow> error + real" where
  "np_percentile a q =
     (if q < 0 \<or> 100 < q then Inl ValueError
      else
        let s = sort a; n = length s;
            pos = q / 100 * real (n - 1);
            lo = nat \<lfloor>pos\<rfloor>; hi = min (lo + 1) (n - 1)
        in Inr (s ! lo + (pos - real lo) * (s ! hi - s ! lo)))"

text \<open>\<^verbatim>\<open>cutoffs[0]\<close> and \<^verbatim>\<open>cutoffs[1]\<close>.\<close>

definition cutoff_pair :: "kwval \<Rightarrow> error + real \<times> real" where
  "cutoff_pair c =
     (case c of
        KSeq xs \<Rightarrow> bind_err (item xs 0) (\<lambda>a. bind_err (item xs 1) (\<lambda>b. Inr (a, b)))
      | _ \<Rightarrow> Inl TypeError)"

definition stretch_linear :: "image \<Rightarrow> nat \<Rightarrow> kwval \<Rightarrow> error + image" where
  "stretch_linear img ch_nb cutoffs =
     bind_err (item (channels img) ch_nb) (\<lambda>arr.
       let carr = compressed arr
       in if carr = [] \<or> list_min carr = list_max carr then Inr img
          else
            bind_err (cutoff_pair cutoffs) (\<lambda>(c0, c1).
            bind_err (np_percentile carr (c0 * 100)) (\<lambda>left.
            bind_err (np_percentile carr (100 - c1 * 100)) (\<lambda>right.
              let delta_x = right - left
              in if 0 < delta_x
                 then Inr (img\<lparr>channels := (channels img)
                        [ch_nb := ma_rscalar (/) (ma_rscalar (-) arr left) delta_x]\<rparr>)
                 else Inr img))))"

text \<open>The elements of a grid with their positions.\<close>

definition grid_mapi :: "(nat \<Rightarrow> nat \<Rightarrow> 'a \<Rightarrow> 'b) \<Rightarrow> 'a grid \<Rightarrow> 'b grid" where
  "grid_mapi f g =
     map (\<lambda>(i, row). map (\<lambda>(j, x). f i j x) (zip [0..<length row] row)) (zip [0..<length g] g)"

definition stretch_hist_equalize :: "env \<Rightarrow> image \<Rightarrow> nat \<Rightarrow> error + image" where
  "stretch_hist_equalize ev img ch_nb =
     bind_err (item (channels img) ch_nb) (\<lambda>arr.
       let carr = compressed arr
       in if carr = [] then Inr img
          else
            let cdf = map (\<lambda>k. real k / 2048) [0..<2048]
            in bind_err (mapM_err (\<lambda>c. np_percentile carr (c * 100)) cdf) (\<lambda>bins.
                 Inr (img\<lparr>channels := (channels img)
                        [ch_nb := grid_mapi (\<lambda>i j (v, m).
                            if m then (uninit ev i j, True)
                            else (np_interp v (zip bins cdf), False)) arr]\<rparr>)))"

definition stretch_logarithmic :: "image \<Rightarrow> nat \<Rightarrow> kwval \<Rightarrow> error + image" where
  "stretch_logarithmic img ch_nb factor =
     bind_err (item (channels img) ch_nb) (\<lambda>arr.
       let carr = compressed arr
       in if carr = [] \<or> list_min carr = list_max carr then Inr img
          else
            (case factor of
               KNum f \<Rightarrow>
                 if f \<le> 0 \<or> f = 1 then Inl Unmodelled
                 else
                   let b = (1 - 0) / ln f; c = 0;
                       slope = (f - 1) / (list_max carr - list_min carr);
                       arr1 = ma_lscalar (+) 1
                                (ma_rscalar (*) (ma_rscalar (-) arr (list_min carr)) slope);
                       arr2 = ma_lscalar (+) c
                                (ma_lscalar (*) b (grid_map (\<lambda>(v, m). (ln v, m)) arr1))
                   in Inr (img\<lparr>channels := (channels img)[ch_nb := arr2]\<rparr>)
             | _ \<Rightarrow> Inl TypeError))"

text \<open>The value of \<^verbatim>\<open>min_stretch\<close> (or \<^verbatim>\<open>max_stretch\<close>) as \<^verbatim>\<open>crude_stretch\<close>
  goes on: the constant \<^verbatim>\<open>masked\<close>, a number, or a sequence still to be indexed.\<close>

datatype bound = BMasked | BNum real | BSeq "real list"

definition default_bound :: "(real list \<Rightarrow> real) \<Rightarrow> marray \<Rightarrow> kwval \<Rightarrow> error + bound" where
  "default_bound ext arr b =
     (case b of
        KNone \<Rightarrow> (if concat arr = [] then Inl ValueError
                   else if compressed arr = [] then Inr BMasked
                   else Inr (BNum (ext (compressed arr))))
      | KNum x \<Rightarrow> Inr (BNum x)
      | KSeq xs \<Rightarrow> Inr (BSeq xs))"

definition index_bound :: "nat \<Rightarrow> bound \<Rightarrow> error + bound" where
  "index_bound ch_nb b =
     (case b of BSeq xs \<Rightarrow> bind_err (item xs ch_nb) (\<lambda>x. Inr (BNum x)) | _ \<Rightarrow> Inr b)"

definition crude_stretch :: "image \<Rightarrow> nat \<Rightarrow> kwval \<Rightarrow> kwval \<Rightarrow> error + image" where
  "crude_stretch img ch_nb min_stretch max_stretch =
     bind_err (item (channels img) ch_nb) (\<lambda>arr.
     bind_err (default_bound list_min arr min_stretch) (\<lambda>mn0.
     bind_err (default_bound list_max arr max_stretch) (\<lambda>mx0.
     bind_err (index_bound ch_nb mn0) (\<lambda>mn.
     bind_err (index_bound ch_nb mx0) (\<lambda>mx.
       if list_all snd (concat arr) then Inr img
       else (case (mn, mx) of
               (BNum lo, BNum hi) \<Rightarrow>
                 if 0 < \<bar>hi - lo\<bar>
                 then Inr (img\<lparr>channels := (channels img)
                        [ch_nb := grid_map (\<lambda>(v, m). ((v - lo) / (hi - lo), m)) arr]\<rparr>)
                 else Inr img
             | _ \<Rightarrow> Inl Unmodelled))))))"

text \<open>The four ways \<^verbatim>\<open>stretch\<close> calls a per-channel method with \<^verbatim>\<open>**kwargs\<close>.\<close>

definition call_stretch_linear :: "image \<Rightarrow> nat \<Rightarrow> kwargs \<Rightarrow> error + image" where
  "call_stretch_linear img i kw =
     (if kw_keys_ok kw [''cutoffs'']
      then stretch_linear img i (kw_get kw ''cutoffs'' (KSeq [0.005, 0.005]))
      else Inl TypeError)"

definition call_stretch_cutoffs :: "image \<Rightarrow> nat \<Rightarrow> real list \<Rightarrow> kwargs \<Rightarrow> error + image" where
  "call_stretch_cutoffs img i cutoffs kw =
     (if kw = [] then stretch_linear img i (KSeq cutoffs) else Inl TypeError)"

definition call_hist_equalize :: "env \<Rightarrow> image \<Rightarrow> nat \<Rightarrow> kwargs \<Rightarrow> error + image" where
  "call_hist_equalize ev img i kw =
     (if kw = [] then stretch_hist_equalize ev img i else Inl TypeError)"

definition call_crude_stretch :: "image \<Rightarrow> nat \<Rightarrow> kwargs \<Rightarrow> error + image" where
  "call_crude_stretch img i kw =
     (if kw_keys_ok kw [''min_stretch'', ''max_stretch'']
      then crude_stretch img i (kw_get kw ''min_stretch'' KNone) (kw_get kw ''max_stretch'' KNone)
      else Inl TypeError)"

definition call_logarithmic :: "image \<Rightarrow> nat \<Rightarrow> kwargs \<Rightarrow> error + image" where
  "call_logarithmic img i kw =
     (if kw_keys_ok kw [''factor'']
      then stretch_logarithmic img i (kw_get kw ''factor'' (KNum 100))
      else Inl TypeError)"

definition stretch :: "env \<Rightarrow> image \<Rightarrow> stretch_arg \<Rightarrow> kwargs \<Rightarrow> error + image" where
  "stretch ev img s kw =
     (let ch_len = length (channels img) - (if endswith_A (mode img) then 1 else 0)
      in case s of
           StretchSeq xs \<Rightarrow>
             if length xs = 2
             then foldM_err (\<lambda>i im. call_stretch_cutoffs im i xs kw) [0..<ch_len] img
             else Inl ValueError
         | StretchStr name \<Rightarrow>
             if name = ''linear''
             then foldM_err (\<lambda>i im. call_stretch_linear im i kw) [0..<ch_len] img
             else if name = ''histogram''
             then foldM_err (\<lambda>i im. call_hist_equalize ev im i kw) [0..<ch_len] img
             else if name \<in> set [''crude'', ''crude-stretch'']
             then foldM_err (\<lambda>i im. call_crude_stretch im i kw) [0..<ch_len] img
             else if name \<in> set [''log'', ''logarithmic'']
             then foldM_err (\<lambda>i im. call_logarithmic im i kw) [0..<ch_len] img
             else if name = ''no'' then Inr img
             else Inl ValueError
         | StretchOther \<Rightarrow> Inl TypeError)"

subsection \<open>enhance\<close>

definition enhance ::
  "env \<Rightarrow> image \<Rightarrow> invert_arg \<Rightarrow> gamma_arg \<Rightarrow> stretch_arg \<Rightarrow> kwargs option \<Rightarrow> kwargs \<Rightarrow>
     error + image" where
  "enhance ev img inv_arg g s stretch_parameters kw =
     bind_err (invert img inv_arg) (\<lambda>img1.
       let sp = (case stretch_parameters of None \<Rightarrow> [] | Some d \<Rightarrow> d);
           sp' = dict_update sp kw
       in bind_err (stretch ev img1 s sp') (\<lambda>img2. gamma ev img2 g))"

text \<open>
  The pipeline as the specification words it: the caller invokes \<^verbatim>\<open>invert\<close>, then
  \<^verbatim>\<open>stretch\<close> with the stretch parameters and the extra keywords, then
  \<^verbatim>\<open>gamma\<close>, and an exception of one call ends the sequence.
\<close>

definition spec_enhance ::
  "env \<Rightarrow> image \<Rightarrow> invert_arg \<Rightarrow> gamma_arg \<Rightarrow> stretch_arg \<Rightarrow> kwargs option \<Rightarrow> kwargs \<Rightarrow>
     error + image" where
  "spec_enhance ev img inv_arg g s stretch_parameters kw =
     (case invert img inv_arg of
        Inl e \<Rightarrow> Inl e
      | Inr inverted \<Rightarrow>
          (case stretch ev inverted s
                  (dict_update (case stretch_parameters of None \<Rightarrow> [] | Some d \<Rightarrow> d) kw) of
             Inl e \<Rightarrow> Inl e
           | Inr stretched \<Rightarrow> gamma ev stretched g))"

section \<open>Consistency of an image\<close>

text \<open>
  The invariants of the data model: the mode is one of the eight modes, there are as many
  channels as the mode has capital letters, and \<^verbatim>\<open>fill_value\<close>, when present, has
  one entry per channel. For the conversions to keep them, the private state of the
  palette has to fit as well: \<^verbatim>\<open>_secondary_mode\<close> is a direct mode without alpha,
  and in an indexed mode every palette entry has one element per channel of that mode.
\<close>

definition channels_match_mode :: "image \<Rightarrow> bool" where
  "channels_match_mode img = (length (channels img) = ncap (mode img))"

definition fill_matches_channels :: "image \<Rightarrow> bool" where
  "fill_matches_channels img =
     (case fill_value img of None \<Rightarrow> True | Some fv \<Rightarrow> length fv = length (channels img))"

definition palette_fits :: "image \<Rightarrow> bool" where
  "palette_fits img =
     (secondary_mode img \<in> set [''L'', ''RGB'', ''YCbCr''] \<and>
      (mode img \<in> set [''P'', ''PA''] \<longrightarrow>
         (case palette img of
            None \<Rightarrow> True
          | Some pal \<Rightarrow> list_all (\<lambda>entry. length entry = ncap (secondary_mode img)) pal)))"

definition consistent :: "image \<Rightarrow> bool" where
  "consistent img =
     (mode img \<in> set modes \<and> channels_match_mode img \<and> fill_matches_channels img \<and>
      palette_fits img)"

section \<open>Example images\<close>

text \<open>Small images on which the theorems below are instantiated.\<close>

definition ex_red :: image where
  "ex_red = \<lparr>channels = [[[(1, False)]], [[(0, False)]], [[(0, False)]]], mode = ''RGB'',
              width = 1, height = 1, fill_value = None, palette = None, shape = (1, 1),
              secondary_mode = ''RGB''\<rparr>"

definition ex_gray3 :: image where
  "ex_gray3 = \<lparr>channels = [[[(0, False), (1, False), (0, False)]]], mode = ''L'',
                width = 3, height = 1, fill_value = None, palette = None, shape = (1, 3),
                secondary_mode = ''RGB''\<rparr>"

definition ex_la :: image where
  "ex_la = \<lparr>channels = [[[(1 / 5, True)]], [[(1 / 4, False)]]], mode = ''LA'',
             width = 1, height = 1, fill_value = Some [0, 2], palette = None, shape = (1, 1),
             secondary_mode = ''RGB''\<rparr>"

definition ex_la_other :: image where
  "ex_la_other = \<lparr>channels = [[[(7 / 10, False)]], [[(3 / 10, False)]]], mode = ''LA'',
                   width = 1, height = 1, fill_value = None, palette = None, shape = (1, 1),
                   secondary_mode = ''RGB''\<rparr>"

definition ex_la_wide :: image where
  "ex_la_wide = \<lparr>channels = [[[(1 / 5, False), (3 / 5, False)]], [[(1 / 4, False), (1 / 2, True)]]],
                  mode = ''LA'', width = 2, height = 1, fill_value = None, palette = None,
                  shape = (1, 2), secondary_mode = ''RGB''\<rparr>"

definition ex_p :: image where
  "ex_p = \<lparr>channels = [[[(0, False), (1, False)]]], mode = ''P'',
            width = 2, height = 1, fill_value = None,
            palette = Some [[Some 0, Some (1 / 2), Some 1], [Some 1, Some 1, Some 0]],
            shape = (1, 2), secondary_mode = ''RGB''\<rparr>"

definition ex_env :: env where
  "ex_env = \<lparr>numexpr = False, uninit = (\<lambda>i j. 0)\<rparr>"

definition ex_env_ne :: env where
  "ex_env_ne = \<lparr>numexpr = True, uninit = (\<lambda>i j. 0)\<rparr>"

section \<open>Basic facts\<close>

lemma bind_err_simps [simp]:
  "bind_err (Inl e) f = Inl e" "bind_err (Inr v) f = f v"
  by (simp_all add: bind_err_def)

lemma bind_err_Inr_iff: "bind_err r f = Inr y \<longleftrightarrow> (\<exists>v. r = Inr v \<and> f v = Inr y)"
  by (cases r) simp_all

lemma is_empty_False:
  "is_empty img = Inr False \<longleftrightarrow> channels img \<noteq> [] \<and> shape img \<noteq> (0, 0)"
  by (auto simp: is_empty_def)

lemma shape_of_full: "shape_of (full (shape_of g) v) = shape_of g"
  by (cases g) (auto simp: shape_of_def full_def split: list.splits)

lemma set_full: "row \<in> set (full s v) \<Longrightarrow> px \<in> set row \<Longrightarrow> px = v"
  by (auto simp: full_def)

lemma butlast_option: "map_option butlast (map_option (\<lambda>fv. fv @ [x]) f) = f"
  by (cases f) simp_all

lemma np_round_range:
  assumes "0 \<le> x" and "x \<le> 255"
  shows "0 \<le> np_round x \<and> np_round x \<le> 255"
proof -
  have f0: "0 \<le> \<lfloor>x\<rfloor>" using assms(1) by simp
  have f1: "\<lfloor>x\<rfloor> \<le> 255" using assms(2) by linarith
  show ?thesis
  proof (cases "\<lfloor>x\<rfloor> = 255")
    case True
    then have "x = 255" using assms(2) by linarith
    then show ?thesis by (simp add: np_round_def)
  next
    case False
    with f1 have "\<lfloor>x\<rfloor> + 1 \<le> 255" by linarith
    with f0 show ?thesis by (auto simp: np_round_def Let_def)
  qed
qed

lemma clip01_range: "0 \<le> clip01 v * 255 \<and> clip01 v * 255 \<le> 255"
  by (simp add: clip01_def min_def max_def)

lemma uint_finalize_value:
  "uint (word_of_int (np_round (clip01 v * 255)) :: 8 word) = np_round (clip01 v * 255)"
proof -
  from np_round_range [of "clip01 v * 255"] clip01_range [of v]
  have "0 \<le> np_round (clip01 v * 255)" "np_round (clip01 v * 255) < 2 ^ 8" by simp_all
  then show ?thesis
    by (simp add: uint_word_of_int_eq take_bit_int_eq_self)
qed

lemma grid_map_nth:
  "i < length g \<Longrightarrow> j < length (g ! i) \<Longrightarrow> grid_map f g ! i ! j = f (g ! i ! j)"
  by (simp add: grid_map_def)

lemma grid_map_length [simp]: "length (grid_map f g) = length g"
  by (simp add: grid_map_def)

lemma grid_map_row_length [simp]: "i < length g \<Longrightarrow> length (grid_map f g ! i) = length (g ! i)"
  by (simp add: grid_map_def)

subsection \<open>Loops\<close>

lemma mapM_err_Inr:
  "mapM_err f xs = Inr ys \<Longrightarrow>
     length ys = length xs \<and> (\<forall>i < length xs. f (xs ! i) = Inr (ys ! i))"
proof (induction xs arbitrary: ys)
  case Nil
  then show ?case by simp
next
  case (Cons x xs)
  from Cons.prems obtain y ys' where y: "f x = Inr y" and ys': "mapM_err f xs = Inr ys'"
    and ys: "ys = y # ys'"
    by (auto simp: bind_err_Inr_iff)
  from Cons.IH [OF ys'] y ys show ?case
    by (auto simp: nth_Cons split: nat.splits)
qed

lemma mapM_err_Inl:
  "mapM_err f xs = Inl e \<Longrightarrow> \<exists>x \<in> set xs. f x = Inl e"
proof (induction xs)
  case Nil
  then show ?case by simp
next
  case (Cons x xs)
  then show ?case
    by (cases "f x"; cases "mapM_err f xs") auto
qed

lemma foldM_err_Inl:
  "foldM_err f xs s = Inl e \<Longrightarrow> \<exists>x \<in> set xs. \<exists>t. f x t = Inl e"
proof (induction xs arbitrary: s)
  case Nil
  then show ?case by simp
next
  case (Cons x xs)
  then show ?case
    by (cases "f x s") auto
qed

lemma foldM_err_invariant:
  assumes "foldM_err f xs s = Inr s'" and "P s"
    and "\<And>x t t'. x \<in> set xs \<Longrightarrow> P t \<Longrightarrow> f x t = Inr t' \<Longrightarrow> P t'"
  shows "P s'"
  using assms
proof (induction xs arbitrary: s)
  case Nil
  then show ?case by simp
next
  case (Cons x xs)
  from Cons.prems(1) obtain t where t: "f x s = Inr t" and rest: "foldM_err f xs t = Inr s'"
    by (auto simp: bind_err_Inr_iff)
  have "P t" using Cons.prems(2) t by (rule Cons.prems(3) [of x, simplified])
  with rest show ?case
    by (rule Cons.IH) (auto intro: Cons.prems(3))
qed


subsection \<open>Grids\<close>

lemma foldM_err_append:
  "foldM_err f (xs @ ys) s = bind_err (foldM_err f xs s) (foldM_err f ys)"
  by (induction xs arbitrary: s) (auto simp: bind_err_def split: sum.splits)

lemma same_shape_length: "same_shape a b \<Longrightarrow> length a = length b"
  by (auto simp: same_shape_def dest: map_eq_imp_length_eq)

lemma same_shape_row: "same_shape a b \<Longrightarrow> i < length a \<Longrightarrow> length (a ! i) = length (b ! i)"
proof -
  assume s: "same_shape a b" and i: "i < length a"
  then have "map length a ! i = map length b ! i" by (simp add: same_shape_def)
  with i same_shape_length [OF s] show ?thesis by simp
qed

lemma same_shape_refl [simp]: "same_shape a a"
  by (simp add: same_shape_def)

lemma same_shape_sym: "same_shape a b \<Longrightarrow> same_shape b a"
  by (simp add: same_shape_def)

lemma same_shape_trans: "same_shape a b \<Longrightarrow> same_shape b c \<Longrightarrow> same_shape a c"
  by (simp add: same_shape_def)

lemma same_shape_grid_map_left [simp]: "same_shape (grid_map f a) b = same_shape a b"
  by (simp add: same_shape_def grid_map_def comp_def)

lemma same_shape_grid_map_right [simp]: "same_shape a (grid_map f b) = same_shape a b"
  by (simp add: same_shape_def grid_map_def comp_def)

lemma grid_map2_nth:
  assumes "same_shape a b" and "i < length a" and "j < length (a ! i)"
  shows "grid_map2 f a b ! i ! j = f (a ! i ! j) (b ! i ! j)"
  using assms same_shape_length [OF assms(1)] same_shape_row [OF assms(1,2)]
  by (simp add: grid_map2_def)

lemma same_shape_grid_map2:
  assumes "same_shape a b"
  shows "same_shape (grid_map2 f a b) a"
proof -
  have "map length (map2 (map2 f) a b) = map length a"
  proof (rule nth_equalityI)
    show "length (map length (map2 (map2 f) a b)) = length (map length a)"
      using same_shape_length [OF assms] by simp
  next
    fix i assume "i < length (map length (map2 (map2 f) a b))"
    then have i: "i < length a" "i < length b" by simp_all
    with same_shape_row [OF assms i(1)]
    show "map length (map2 (map2 f) a b) ! i = map length a ! i" by simp
  qed
  then show ?thesis by (simp add: same_shape_def grid_map2_def)
qed

lemma msk_nth: "i < length a \<Longrightarrow> j < length (a ! i) \<Longrightarrow> msk a ! i ! j = snd (a ! i ! j)"
  by (simp add: msk_def grid_map_nth)

lemma msk_length [simp]: "length (msk a) = length a"
  by (simp add: msk_def)

lemma msk_row_length [simp]: "i < length a \<Longrightarrow> length (msk a ! i) = length (a ! i)"
  by (simp add: msk_def)

lemma mask_or_all_spec:
  assumes "mask_or_all m chans = Inr sm"
  shows "same_shape sm m \<and> (\<forall>c \<in> set chans. same_shape c m) \<and>
    (\<forall>i j. i < length m \<and> j < length (m ! i) \<longrightarrow>
       sm ! i ! j = (m ! i ! j \<or> (\<exists>c \<in> set chans. snd (c ! i ! j))))"
  using assms
proof (induction chans arbitrary: m)
  case Nil
  then show ?case by simp
next
  case (Cons chn chans)
  from Cons.prems obtain m' where m': "mask_or m (msk chn) = Inr m'"
    and rest: "mask_or_all m' chans = Inr sm"
    by (auto simp: bind_err_Inr_iff)
  from m' have sh: "same_shape m (msk chn)" and m'_def: "m' = grid_map2 (\<or>) m (msk chn)"
    by (auto simp: mask_or_def split: if_splits)
  from sh have "same_shape m chn" by (simp add: msk_def)
  then have sc: "same_shape chn m" by (rule same_shape_sym)
  have sm': "same_shape m' m" unfolding m'_def by (rule same_shape_grid_map2 [OF sh])
  from Cons.IH [OF rest] have IH1: "same_shape sm m'" and IH2: "\<forall>c \<in> set chans. same_shape c m'"
    and IH3: "\<forall>i j. i < length m' \<and> j < length (m' ! i) \<longrightarrow>
       sm ! i ! j = (m' ! i ! j \<or> (\<exists>c \<in> set chans. snd (c ! i ! j)))"
    by blast+
  have a: "same_shape sm m" using IH1 sm' by (rule same_shape_trans)
  have b: "\<forall>c \<in> set (chn # chans). same_shape c m"
    using IH2 sm' sc by (auto intro: same_shape_trans)
  have c: "sm ! i ! j = (m ! i ! j \<or> (\<exists>c \<in> set (chn # chans). snd (c ! i ! j)))"
    if ij: "i < length m \<and> j < length (m ! i)" for i j
  proof -
    from ij same_shape_length [OF sm'] same_shape_row [OF sm', of i]
    have ij': "i < length m' \<and> j < length (m' ! i)" by simp
    from ij same_shape_length [OF sc] same_shape_row [OF sc, of i]
    have ijc: "i < length chn" "j < length (chn ! i)" by simp_all
    have "m' ! i ! j = (m ! i ! j \<or> snd (chn ! i ! j))"
      using ij ijc by (simp add: m'_def grid_map2_nth [OF sh] msk_nth)
    with IH3 ij' show ?thesis by auto
  qed
  from a b c show ?case by blast
qed


subsection \<open>The branches of convert\<close>

lemma convert_same: "convert img (mode img) = Some (Inr img)"
  by (subst convert.simps) simp

lemma convert_add_alpha:
  assumes "mode img @ ''A'' \<in> set modes" and "is_empty img = Inr False"
  shows "convert img (mode img @ ''A'') =
     Some (Inr (img\<lparr>channels := channels img @ [ma_ones (shape_of (hd (channels img)))],
                    fill_value := map_option (\<lambda>fv. fv @ [1]) (fill_value img),
                    mode := mode img @ ''A''\<rparr>))"
proof -
  from assms(2) have "channels img \<noteq> []" by (simp add: is_empty_False)
  then have "item (channels img) 0 = Inr (hd (channels img))"
    by (simp add: item_def hd_conv_nth)
  with assms show ?thesis
    by (subst convert.simps) simp
qed

lemma convert_drop_alpha:
  assumes "m \<in> set modes" and "is_empty img = Inr False" and "mode img = m @ ''A''"
  shows "convert img m =
     Some (Inr (img\<lparr>channels := butlast (channels img),
                    fill_value := map_option butlast (fill_value img),
                    mode := m\<rparr>))"
  using assms by (subst convert.simps) simp

text \<open>One unfolding of \<^verbatim>\<open>convert\<close> that returns normally, branch by branch.\<close>

lemma bind_case_Inr:
  "Option.bind a (\<lambda>r. case r of Inl e \<Rightarrow> Some (Inl e) | Inr v \<Rightarrow> g v) = Some (Inr i) \<longleftrightarrow>
     (\<exists>v. a = Some (Inr v) \<and> g v = Some (Inr i))"
  by (cases a) (auto split: sum.splits)

lemma case_sum_Some_Inr:
  "(case x of Inl e \<Rightarrow> Some (Inl e) | Inr v \<Rightarrow> g v) = Some (Inr i) \<longleftrightarrow>
     (\<exists>v. x = Inr v \<and> g v = Some (Inr i))"
  by (cases x) auto

lemma convert_step_cases:
  assumes "(if m = mode img then Some (Inr img)
      else if m \<notin> set modes then Some (Inl ValueError)
      else case is_empty img of
        Inl e \<Rightarrow> Some (Inl e)
      | Inr emp \<Rightarrow>
          if emp then Some (Inr (img\<lparr>mode := m\<rparr>))
          else if m = mode img @ ''A'' then
            Some (bind_err (item (channels img) 0) (\<lambda>c0.
              Inr (img\<lparr>channels := channels img @ [ma_ones (shape_of c0)],
                        fill_value := map_option (\<lambda>fv. fv @ [1]) (fill_value img),
                        mode := m\<rparr>)))
          else if m @ ''A'' = mode img then
            Some (Inr (img\<lparr>channels := butlast (channels img),
                            fill_value := map_option butlast (fill_value img),
                            mode := m\<rparr>))
          else if endswith_A m \<and> \<not> endswith_A (mode img) then
            Option.bind (f img (mode img @ ''A''))
              (\<lambda>r. case r of Inl e \<Rightarrow> Some (Inl e) | Inr img' \<Rightarrow> f img' m)
          else if endswith_A (mode img) \<and> \<not> endswith_A m then
            Option.bind (f img (butlast (mode img)))
              (\<lambda>r. case r of Inl e \<Rightarrow> Some (Inl e) | Inr img' \<Rightarrow> f img' m)
          else case lookup_case (mode img) m of
            None \<Rightarrow> Some (Inl ValueError)
          | Some h \<Rightarrow>
              if h = H_from_p
              then (case from_p_expand img of
                      Inl e \<Rightarrow> Some (Inl e)
                    | Inr img' \<Rightarrow> f img' m)
              else Some (direct_handler h img m)) = Some (Inr i)"
  obtains
    (same) "m = mode img" "i = img"
  | (empty) "m \<in> set modes" "is_empty img = Inr True" "i = img\<lparr>mode := m\<rparr>"
  | (add_alpha) c0 where "m \<in> set modes" "is_empty img = Inr False" "m = mode img @ ''A''"
      "item (channels img) 0 = Inr c0"
      "i = img\<lparr>channels := channels img @ [ma_ones (shape_of c0)],
                fill_value := map_option (\<lambda>fv. fv @ [1]) (fill_value img), mode := m\<rparr>"
  | (drop_alpha) "m \<in> set modes" "is_empty img = Inr False" "m @ ''A'' = mode img"
      "i = img\<lparr>channels := butlast (channels img),
                fill_value := map_option butlast (fill_value img), mode := m\<rparr>"
  | (via_add) img1 where "m \<in> set modes" "is_empty img = Inr False"
      "endswith_A m" "\<not> endswith_A (mode img)"
      "f img (mode img @ ''A'') = Some (Inr img1)" "f img1 m = Some (Inr i)"
  | (via_drop) img1 where "m \<in> set modes" "is_empty img = Inr False"
      "endswith_A (mode img)" "\<not> endswith_A m"
      "f img (butlast (mode img)) = Some (Inr img1)" "f img1 m = Some (Inr i)"
  | (from_p) img1 where "m \<in> set modes" "is_empty img = Inr False"
      "lookup_case (mode img) m = Some H_from_p"
      "from_p_expand img = Inr img1" "f img1 m = Some (Inr i)"
  | (direct) h where "m \<in> set modes" "is_empty img = Inr False"
      "lookup_case (mode img) m = Some h" "h \<noteq> H_from_p" "direct_handler h img m = Inr i"
  using assms
  by (auto simp: bind_err_Inr_iff bind_case_Inr case_sum_Some_Inr
      split: if_splits option.splits sum.splits)

lemma rgb2ycbcr_conv_mode: "rgb2ycbcr_conv img m = Inr img' \<Longrightarrow> mode img' = m"
  by (auto simp: rgb2ycbcr_conv_def bind_err_Inr_iff split: option.splits prod.splits)

lemma ycbcr2rgb_conv_mode: "ycbcr2rgb_conv img m = Inr img' \<Longrightarrow> mode img' = m"
  by (auto simp: ycbcr2rgb_conv_def bind_err_Inr_iff split: option.splits prod.splits)

lemma to_p_mode: "to_p img m = Inr img' \<Longrightarrow> mode img' = m"
  by (auto simp: to_p_def bind_err_Inr_iff split: option.splits prod.splits if_splits)

lemma l2rgb_mode: "l2rgb img m = Inr img' \<Longrightarrow> mode img' = m"
  by (auto simp: l2rgb_def bind_err_Inr_iff Let_def split: option.splits prod.splits if_splits)

lemma rgb2l_mode: "rgb2l img m = Inr img' \<Longrightarrow> mode img' = m"
  by (auto simp: rgb2l_def bind_err_Inr_iff split: option.splits prod.splits)

lemma ycbcr2l_mode: "ycbcr2l img m = Inr img' \<Longrightarrow> mode img' = m"
  by (auto simp: ycbcr2l_def bind_err_Inr_iff split: option.splits prod.splits)

lemma l2ycbcr_mode: "l2ycbcr img m = Inr img' \<Longrightarrow> mode img' = m"
  by (auto simp: l2ycbcr_def bind_err_Inr_iff split: option.splits prod.splits)

lemma direct_handler_mode:
  "h \<noteq> H_from_p \<Longrightarrow> direct_handler h img m = Inr img' \<Longrightarrow> mode img' = m"
  by (cases h)
    (simp_all add: rgb2ycbcr_conv_mode ycbcr2rgb_conv_mode to_p_mode l2rgb_mode rgb2l_mode
       ycbcr2l_mode l2ycbcr_mode)

lemma convert_mode:
  assumes ret: "convert img m = Some (Inr img')"
  shows "mode img' = m"
proof -
  have "\<forall>i. (Inr img' :: error + image) = Inr i \<longrightarrow> mode i = m"
  proof (rule convert.raw_induct
      [where P = "\<lambda>img m r. \<forall>i. r = Inr i \<longrightarrow> mode i = m", OF _ ret], goal_cases)
    case (1 f img m r)
    show ?case
    proof (intro allI impI)
      fix i
      assume ri: "r = Inr i"
      from 1(2) [unfolded ri] show "mode i = m"
      proof (cases rule: convert_step_cases)
        case (direct h)
        then show ?thesis by (simp add: direct_handler_mode)
      qed (auto dest: 1(1))
    qed
  qed
  then show ?thesis by simp
qed


text \<open>A call of \<^verbatim>\<open>convert\<close> that returns normally leaves the image in the requested
  mode.\<close>

section \<open>Alpha symmetry\<close>

text \<open>
  C8. On a non-empty image in a mode without alpha, \<^verbatim>\<open>convert(mode + "A")\<close> returns
  the image with one more channel, of the shape of the first channel, all ones and
  nowhere masked, with \<open>1\<close> appended to \<^verbatim>\<open>fill_value\<close> if there is one and with
  nothing else changed; \<^verbatim>\<open>convert(mode)\<close> on the result returns the original image.
  In the other order, on a non-empty image in an alpha mode that has a channel besides
  the alpha channel, \<^verbatim>\<open>convert\<close> to the mode without alpha drops the last channel
  and the last fill value, and converting back keeps the channels before the last.
\<close>

theorem convert_alpha_symmetry:
  "(mode img \<in> {''L'', ''RGB'', ''YCbCr'', ''P''} \<and> is_empty img = Inr False \<longrightarrow>
      (\<exists>img1. convert img (mode img @ ''A'') = Some (Inr img1) \<and>
         img1 = img\<lparr>channels := channels img @ [ma_ones (shape_of (hd (channels img)))],
                    fill_value := map_option (\<lambda>fv. fv @ [1]) (fill_value img),
                    mode := mode img @ ''A''\<rparr> \<and>
         shape_of (last (channels img1)) = shape_of (hd (channels img)) \<and>
         (\<forall>row \<in> set (last (channels img1)). \<forall>px \<in> set row. px = (1, False)) \<and>
         convert img1 (mode img) = Some (Inr img))) \<and>
   (mode img \<in> {''LA'', ''RGBA'', ''YCbCrA'', ''PA''} \<and> is_empty img = Inr False \<and>
    2 \<le> length (channels img) \<longrightarrow>
      (\<exists>img2 img3. convert img (butlast (mode img)) = Some (Inr img2) \<and>
         img2 = img\<lparr>channels := butlast (channels img),
                    fill_value := map_option butlast (fill_value img),
                    mode := butlast (mode img)\<rparr> \<and>
         convert img2 (mode img) = Some (Inr img3) \<and>
         butlast (channels img3) = butlast (channels img) \<and>
         length (channels img3) = length (channels img) \<and>
         mode img3 = mode img))"
proof (intro conjI impI)
  assume h: "mode img \<in> {''L'', ''RGB'', ''YCbCr'', ''P''} \<and> is_empty img = Inr False"
  let ?img1 = "img\<lparr>channels := channels img @ [ma_ones (shape_of (hd (channels img)))],
                    fill_value := map_option (\<lambda>fv. fv @ [1]) (fill_value img),
                    mode := mode img @ ''A''\<rparr>"
  from h have tgt: "mode img @ ''A'' \<in> set modes" and src: "mode img \<in> set modes"
    by (auto simp: modes_def)
  from h have ne: "is_empty img = Inr False" by simp
  have add: "convert img (mode img @ ''A'') = Some (Inr ?img1)"
    by (rule convert_add_alpha [OF tgt ne])
  have ne1: "is_empty ?img1 = Inr False"
    using ne by (simp add: is_empty_False)
  have "convert ?img1 (mode img) =
      Some (Inr (?img1\<lparr>channels := butlast (channels ?img1),
                       fill_value := map_option butlast (fill_value ?img1),
                       mode := mode img\<rparr>))"
    by (rule convert_drop_alpha [OF src ne1]) simp
  then have restored: "convert ?img1 (mode img) = Some (Inr img)"
    by (simp add: butlast_option)
  have ones: "\<forall>row \<in> set (last (channels ?img1)). \<forall>px \<in> set row. px = (1, False)"
    by (auto simp: ma_ones_def dest: set_full)
  have shp: "shape_of (last (channels ?img1)) = shape_of (hd (channels img))"
    by (simp add: ma_ones_def shape_of_full)
  from add restored ones shp
  show "\<exists>img1. convert img (mode img @ ''A'') = Some (Inr img1) \<and>
         img1 = ?img1 \<and>
         shape_of (last (channels img1)) = shape_of (hd (channels img)) \<and>
         (\<forall>row \<in> set (last (channels img1)). \<forall>px \<in> set row. px = (1, False)) \<and>
         convert img1 (mode img) = Some (Inr img)"
    by blast
next
  assume h: "mode img \<in> {''LA'', ''RGBA'', ''YCbCrA'', ''PA''} \<and> is_empty img = Inr False \<and>
    2 \<le> length (channels img)"
  let ?img2 = "img\<lparr>channels := butlast (channels img),
                    fill_value := map_option butlast (fill_value img),
                    mode := butlast (mode img)\<rparr>"
  from h have tgt: "butlast (mode img) \<in> set modes" and src: "mode img \<in> set modes"
    and eq: "mode img = butlast (mode img) @ ''A''"
    by (auto simp: modes_def)
  from h have ne: "is_empty img = Inr False" and len: "2 \<le> length (channels img)"
    by simp_all
  have dropped: "convert img (butlast (mode img)) = Some (Inr ?img2)"
    by (rule convert_drop_alpha [OF tgt ne eq])
  from len have "butlast (channels img) \<noteq> []"
    by (cases "channels img" rule: rev_cases) auto
  with ne have ne2: "is_empty ?img2 = Inr False"
    by (simp add: is_empty_False)
  from src eq have tgt2: "mode ?img2 @ ''A'' \<in> set modes" by simp
  have add: "convert ?img2 (mode ?img2 @ ''A'') =
      Some (Inr (?img2\<lparr>channels := channels ?img2 @ [ma_ones (shape_of (hd (channels ?img2)))],
                       fill_value := map_option (\<lambda>fv. fv @ [1]) (fill_value ?img2),
                       mode := mode ?img2 @ ''A''\<rparr>))"
    by (rule convert_add_alpha [OF tgt2 ne2])
  have m2: "mode ?img2 @ ''A'' = mode img" using eq by simp
  from len have len': "Suc (length (channels img) - Suc 0) = length (channels img)" by simp
  from dropped add [unfolded m2] len'
  show "\<exists>img2 img3. convert img (butlast (mode img)) = Some (Inr img2) \<and>
         img2 = ?img2 \<and>
         convert img2 (mode img) = Some (Inr img3) \<and>
         butlast (channels img3) = butlast (channels img) \<and>
         length (channels img3) = length (channels img) \<and>
         mode img3 = mode img"
    by (simp add: m2)
qed

theorem convert_alpha_symmetry_witness:
  "(\<exists>img1. convert ex_gray3 ''LA'' = Some (Inr img1) \<and>
      channels img1 = channels ex_gray3 @ [[[(1, False), (1, False), (1, False)]]] \<and>
      convert img1 ''L'' = Some (Inr ex_gray3)) \<and>
   (\<exists>img2 img3. convert ex_la ''L'' = Some (Inr img2) \<and>
      channels img2 = [[[(1 / 5, True)]]] \<and> fill_value img2 = Some [0] \<and>
      convert img2 ''LA'' = Some (Inr img3) \<and>
      butlast (channels img3) = [[[(1 / 5, True)]]])"
proof -
  have a: "mode ex_gray3 \<in> {''L'', ''RGB'', ''YCbCr'', ''P''} \<and> is_empty ex_gray3 = Inr False"
    by (simp add: ex_gray3_def is_empty_def)
  have b: "mode ex_la \<in> {''LA'', ''RGBA'', ''YCbCrA'', ''PA''} \<and> is_empty ex_la = Inr False \<and>
      2 \<le> length (channels ex_la)"
    by (simp add: ex_la_def is_empty_def)
  have c: "ma_ones (shape_of (hd (channels ex_gray3))) = [[(1, False), (1, False), (1, False)]]"
    by (simp add: ex_gray3_def ma_ones_def shape_of_def full_def numeral_3_eq_3)
  from convert_alpha_symmetry [of ex_gray3] a
  obtain img1 where 1: "convert ex_gray3 (mode ex_gray3 @ ''A'') = Some (Inr img1)"
    "img1 = ex_gray3\<lparr>channels := channels ex_gray3 @ [ma_ones (shape_of (hd (channels ex_gray3)))],
                    fill_value := map_option (\<lambda>fv. fv @ [1]) (fill_value ex_gray3),
                    mode := mode ex_gray3 @ ''A''\<rparr>"
    "convert img1 (mode ex_gray3) = Some (Inr ex_gray3)"
    by blast
  from convert_alpha_symmetry [of ex_la] b
  obtain img2 img3 where 2: "convert ex_la (butlast (mode ex_la)) = Some (Inr img2)"
    "img2 = ex_la\<lparr>channels := butlast (channels ex_la),
                    fill_value := map_option butlast (fill_value ex_la),
                    mode := butlast (mode ex_la)\<rparr>"
    "convert img2 (mode ex_la) = Some (Inr img3)"
    "butlast (channels img3) = butlast (channels ex_la)"
    by blast
  have m1: "mode ex_gray3 = ''L''" "mode ex_la = ''LA''"
    by (simp_all add: ex_gray3_def ex_la_def)
  have i1: "channels img1 = channels ex_gray3 @ [[[(1, False), (1, False), (1, False)]]]"
    using 1(2) c by simp
  have i2: "channels img2 = [[[(1 / 5, True)]]]" "fill_value img2 = Some [0]"
    "butlast (channels ex_la) = [[[(1 / 5, True)]]]"
    using 2(2) by (simp_all add: ex_la_def)
  from 1 2 i1 i2 show ?thesis
    unfolding m1 by auto
qed

section \<open>YCbCr round trip\<close>

lemma rgb2ycbcr_red: "rgb2ycbcr 1 0 0 = (299 / 1000, - (299 / 1772), 1 / 2)"
  by (simp add: rgb2ycbcr_def kr_def kb_def Let_def)

lemma ycbcr2rgb_of_red:
  "ycbcr2rgb (299 / 1000) (- (299 / 1772)) (1 / 2) =
     (1209599 / 701000, - (28559459733363 / 80753912263000), - (16071549 / 196249000))"
  by (simp add: ycbcr2rgb_def kr_def kb_def Let_def)

text \<open>
  C7. The claim fails on the code. Red \<open>(1, 0, 0)\<close> becomes
  \<open>(0.299, -0.299/1.772, 0.5)\<close> in YCbCr, and \<^verbatim>\<open>ycbcr2rgb\<close> maps that triple to
  a red component \<open>1209599/701000\<close> (about 1.7255), not back to \<open>1\<close>: it computes
  \<^verbatim>\<open>2 * cr / (1 - kr)\<close> where the inverse of \<^verbatim>\<open>rgb2ycbcr\<close> is
  \<^verbatim>\<open>2 * cr * (1 - kr)\<close>. The same happens to the one-pixel red image under
  \<^verbatim>\<open>convert("YCbCr")\<close> and \<^verbatim>\<open>convert("RGB")\<close>.
\<close>

theorem ycbcr_roundtrip_red:
  "(case rgb2ycbcr 1 0 0 of (y, cb, cr) \<Rightarrow> ycbcr2rgb y cb cr) =
     (1209599 / 701000, - (28559459733363 / 80753912263000), - (16071549 / 196249000)) \<and>
   convert ex_red ''YCbCr'' =
     Some (Inr (ex_red\<lparr>channels := [[[(299 / 1000, False)]], [[(- (299 / 1772), False)]],
                                     [[(1 / 2, False)]]],
                       mode := ''YCbCr''\<rparr>)) \<and>
   convert (ex_red\<lparr>channels := [[[(299 / 1000, False)]], [[(- (299 / 1772), False)]],
                                [[(1 / 2, False)]]],
                  mode := ''YCbCr''\<rparr>) ''RGB'' =
     Some (Inr (ex_red\<lparr>channels := [[[(1209599 / 701000, False)]],
                                     [[(- (28559459733363 / 80753912263000), False)]],
                                     [[(- (16071549 / 196249000), False)]]]\<rparr>))"
proof (intro conjI)
  show "(case rgb2ycbcr 1 0 0 of (y, cb, cr) \<Rightarrow> ycbcr2rgb y cb cr) =
     (1209599 / 701000, - (28559459733363 / 80753912263000), - (16071549 / 196249000))"
    by (simp add: rgb2ycbcr_red ycbcr2rgb_of_red)
  show "convert ex_red ''YCbCr'' =
     Some (Inr (ex_red\<lparr>channels := [[[(299 / 1000, False)]], [[(- (299 / 1772), False)]],
                                     [[(1 / 2, False)]]],
                       mode := ''YCbCr''\<rparr>))"
    by code_simp
  show "convert (ex_red\<lparr>channels := [[[(299 / 1000, False)]], [[(- (299 / 1772), False)]],
                                [[(1 / 2, False)]]],
                  mode := ''YCbCr''\<rparr>) ''RGB'' =
     Some (Inr (ex_red\<lparr>channels := [[[(1209599 / 701000, False)]],
                                     [[(- (28559459733363 / 80753912263000), False)]],
                                     [[(- (16071549 / 196249000), False)]]]\<rparr>))"
    by code_simp
qed

section \<open>Palette quantization and expansion\<close>

text \<open>
  C2. The claim fails on the code. For the one-row grey image with the values
  \<open>0, 1, 0\<close> the palette becomes \<open>[(0,), (1,)]\<close>, and the first entry equal to the
  colour of the third pixel has index \<open>0\<close>; but \<^verbatim>\<open>_to_p\<close> drops the index that
  \<^verbatim>\<open>next\<close> finds and stores the index of the entry appended last, \<open>1\<close>. Converting
  back to \<^verbatim>\<open>L\<close> then gives \<open>0, 1, 1\<close>, although no pixel was masked.
\<close>

theorem to_p_stale_index:
  "convert ex_gray3 ''P'' =
     Some (Inr (ex_gray3\<lparr>channels := [[[(0, False), (1, False), (1, False)]]],
                         mode := ''P'', palette := Some [[Some 0], [Some 1]],
                         secondary_mode := ''L''\<rparr>)) \<and>
   first_match [[Some 0], [Some 1]] [Some 0] = Some 0 \<and>
   convert (ex_gray3\<lparr>channels := [[[(0, False), (1, False), (1, False)]]],
                    mode := ''P'', palette := Some [[Some 0], [Some 1]],
                    secondary_mode := ''L''\<rparr>) ''L'' =
     Some (Inr (ex_gray3\<lparr>channels := [[[(0, False), (1, False), (1, False)]]],
                         palette := Some [[Some 0], [Some 1]],
                         secondary_mode := ''L''\<rparr>))"
proof (intro conjI)
  show "convert ex_gray3 ''P'' =
     Some (Inr (ex_gray3\<lparr>channels := [[[(0, False), (1, False), (1, False)]]],
                         mode := ''P'', palette := Some [[Some 0], [Some 1]],
                         secondary_mode := ''L''\<rparr>))"
    by code_simp
  show "first_match [[Some 0], [Some 1]] [Some 0] = Some 0"
    by code_simp
  show "convert (ex_gray3\<lparr>channels := [[[(0, False), (1, False), (1, False)]]],
                    mode := ''P'', palette := Some [[Some 0], [Some 1]],
                    secondary_mode := ''L''\<rparr>) ''L'' =
     Some (Inr (ex_gray3\<lparr>channels := [[[(0, False), (1, False), (1, False)]]],
                         palette := Some [[Some 0], [Some 1]],
                         secondary_mode := ''L''\<rparr>))"
    by code_simp
qed

section \<open>Finalization\<close>

lemma finalize_Inr:
  assumes "finalize img = Some (Inr (img', chs, fv))"
  shows "chs = map finalize_chn (channels img')"
    and "fv = map_option (map (\<lambda>col. py_int (col * 255))) (fill_value img')"
    and "mode img \<noteq> ''P'' \<Longrightarrow> mode img \<noteq> ''PA'' \<Longrightarrow> img' = img"
    and "mode img = ''P'' \<Longrightarrow> convert img ''RGB'' = Some (Inr img')"
    and "mode img = ''PA'' \<Longrightarrow> convert img ''RGBA'' = Some (Inr img')"
  using assms
  by (auto simp: finalize_def bind_case_Inr split: if_splits dest: convert_mode)


text \<open>
  C4, as the code has it. When \<^verbatim>\<open>_finalize\<close> returns, every new channel has the
  shape of the channel it comes from, every value \<open>v\<close> has become the 8-bit integer
  \<open>np_round (clip01 v * 255)\<close>, which lies between 0 and 255, and every mask flag is
  kept. An entry \<open>col\<close> of \<^verbatim>\<open>fill_value\<close> becomes \<^verbatim>\<open>int(col * 255)\<close>: it is
  not clamped, and it is truncated towards zero, not rounded.
\<close>

theorem finalize_values:
  assumes "finalize img = Some (Inr (img', chs, fv))"
  shows "length chs = length (channels img') \<and>
    (\<forall>k i j. k < length (channels img') \<and> i < length (channels img' ! k) \<and>
        j < length (channels img' ! k ! i) \<longrightarrow>
        length (chs ! k) = length (channels img' ! k) \<and>
        length (chs ! k ! i) = length (channels img' ! k ! i) \<and>
        uint (fst (chs ! k ! i ! j)) = np_round (clip01 (fst (channels img' ! k ! i ! j)) * 255) \<and>
        0 \<le> uint (fst (chs ! k ! i ! j)) \<and> uint (fst (chs ! k ! i ! j)) \<le> 255 \<and>
        snd (chs ! k ! i ! j) = snd (channels img' ! k ! i ! j)) \<and>
    fv = map_option (map (\<lambda>col. py_int (col * 255))) (fill_value img')"
proof -
  from finalize_Inr(1,2) [OF assms]
  have chs: "chs = map finalize_chn (channels img')"
    and fv: "fv = map_option (map (\<lambda>col. py_int (col * 255))) (fill_value img')"
    by simp_all
  have px: "length (chs ! k) = length (channels img' ! k) \<and>
        length (chs ! k ! i) = length (channels img' ! k ! i) \<and>
        uint (fst (chs ! k ! i ! j)) = np_round (clip01 (fst (channels img' ! k ! i ! j)) * 255) \<and>
        0 \<le> uint (fst (chs ! k ! i ! j)) \<and> uint (fst (chs ! k ! i ! j)) \<le> 255 \<and>
        snd (chs ! k ! i ! j) = snd (channels img' ! k ! i ! j)"
    if "k < length (channels img') \<and> i < length (channels img' ! k) \<and>
        j < length (channels img' ! k ! i)" for k i j
  proof -
    obtain v m where vm: "channels img' ! k ! i ! j = (v, m)"
      by (cases "channels img' ! k ! i ! j")
    from that have "chs ! k ! i ! j = (word_of_int (np_round (clip01 v * 255)), m)"
      by (simp add: chs finalize_chn_def grid_map_nth vm)
    moreover from np_round_range [of "clip01 v * 255"] clip01_range [of v]
    have "0 \<le> np_round (clip01 v * 255)" "np_round (clip01 v * 255) \<le> 255" by simp_all
    ultimately show ?thesis
      using that by (simp add: vm uint_finalize_value chs finalize_chn_def)
  qed
  have len: "length chs = length (channels img')" by (simp add: chs)
  from len px fv show ?thesis by blast
qed

theorem finalize_values_witness:
  "finalize ex_la = Some (Inr (ex_la, [[[(51, True)]], [[(64, False)]]], Some [0, 510])) \<and>
   uint (64 :: 8 word) = np_round (clip01 (1 / 4) * 255) \<and>
   Some [0, 510] = map_option (map (\<lambda>col. py_int (col * 255))) (Some [0, 2])"
proof -
  have f: "finalize ex_la = Some (Inr (ex_la, [[[(51, True)]], [[(64, False)]]], Some [0, 510]))"
    by code_simp
  have r: "1 < length (channels ex_la) \<and> 0 < length (channels ex_la ! 1) \<and>
      0 < length (channels ex_la ! 1 ! 0)"
    by (simp add: ex_la_def)
  from finalize_values [OF f, THEN conjunct2, THEN conjunct1, rule_format, OF r]
  have "uint (fst ([[[(51 :: 8 word, True)]], [[(64, False)]]] ! 1 ! 0 ! 0)) =
          np_round (clip01 (fst (channels ex_la ! 1 ! 0 ! 0)) * 255)"
    by simp
  then have a: "uint (64 :: 8 word) = np_round (clip01 (1 / 4) * 255)"
    by (simp add: ex_la_def)
  from finalize_values [OF f, THEN conjunct2, THEN conjunct2]
  have b: "Some [0, 510] = map_option (map (\<lambda>col. py_int (col * 255))) (Some [0, 2])"
    by (simp add: ex_la_def)
  from f a b show ?thesis by blast
qed

text \<open>
  The claim as stated fails: with the fill values \<open>1/2\<close> and \<open>2\<close> the method
  returns \<open>127\<close> and \<open>510\<close>, where clamping, scaling and rounding give \<open>128\<close>
  and \<open>255\<close>.
\<close>

theorem finalize_fill_value_truncated:
  "finalize (ex_la\<lparr>fill_value := Some [1 / 2, 2]\<rparr>) =
     Some (Inr (ex_la\<lparr>fill_value := Some [1 / 2, 2]\<rparr>,
                [[[(51, True)]], [[(64, False)]]], Some [127, 510])) \<and>
   map (\<lambda>col. np_round (clip01 col * 255)) [1 / 2, 2] = [128, 255]"
  by code_simp

text \<open>
  C5, as the code has it. On an image whose mode is neither \<^verbatim>\<open>P\<close> nor \<^verbatim>\<open>PA\<close>,
  \<^verbatim>\<open>_finalize\<close> returns and leaves the image as it was. An image in mode
  \<^verbatim>\<open>P\<close> (or \<^verbatim>\<open>PA\<close>) is first converted in place to \<^verbatim>\<open>RGB\<close> (or
  \<^verbatim>\<open>RGBA\<close>), as the docstring of the method says: the image the call leaves is the
  one \<^verbatim>\<open>convert\<close> returns.
\<close>

theorem finalize_frame:
  "(mode img \<noteq> ''P'' \<and> mode img \<noteq> ''PA'' \<longrightarrow>
      finalize img = Some (Inr (img, map finalize_chn (channels img),
                                map_option (map (\<lambda>col. py_int (col * 255))) (fill_value img)))) \<and>
   (mode img = ''P'' \<and> finalize img = Some (Inr (img', out)) \<longrightarrow>
      convert img ''RGB'' = Some (Inr img') \<and> mode img' = ''RGB'') \<and>
   (mode img = ''PA'' \<and> finalize img = Some (Inr (img', out)) \<longrightarrow>
      convert img ''RGBA'' = Some (Inr img') \<and> mode img' = ''RGBA'')"
proof (intro conjI impI)
  assume "mode img \<noteq> ''P'' \<and> mode img \<noteq> ''PA''"
  then show "finalize img = Some (Inr (img, map finalize_chn (channels img),
                                map_option (map (\<lambda>col. py_int (col * 255))) (fill_value img)))"
    by (simp add: finalize_def)
next
  assume h: "mode img = ''P'' \<and> finalize img = Some (Inr (img', out))"
  obtain chs fv where "out = (chs, fv)" by (cases out)
  with h finalize_Inr(4) [of img img' chs fv]
  show "convert img ''RGB'' = Some (Inr img')" by simp
  then show "mode img' = ''RGB''" by (rule convert_mode)
next
  assume h: "mode img = ''PA'' \<and> finalize img = Some (Inr (img', out))"
  obtain chs fv where "out = (chs, fv)" by (cases out)
  with h finalize_Inr(5) [of img img' chs fv]
  show "convert img ''RGBA'' = Some (Inr img')" by simp
  then show "mode img' = ''RGBA''" by (rule convert_mode)
qed

text \<open>
  The claim as stated fails on an indexed image: after \<^verbatim>\<open>_finalize\<close> the image
  \<open>ex_p\<close> is in mode \<^verbatim>\<open>RGB\<close> and has three channels.
\<close>

theorem finalize_converts_indexed:
  "mode ex_p = ''P'' \<and> length (channels ex_p) = 1 \<and>
   finalize ex_p =
     Some (Inr (ex_p\<lparr>channels := [[[(0, False), (1, False)]], [[(1 / 2, False), (1, False)]],
                                   [[(1, False), (0, False)]]],
                     mode := ''RGB''\<rparr>,
                [[[(0, False), (255, False)]], [[(128, False), (255, False)]],
                 [[(255, False), (0, False)]]],
                None))"
  by code_simp

theorem finalize_frame_witness:
  "finalize ex_la = Some (Inr (ex_la, [[[(51, True)]], [[(64, False)]]], Some [0, 510])) \<and>
   convert ex_p ''RGB'' =
     Some (Inr (ex_p\<lparr>channels := [[[(0, False), (1, False)]], [[(1 / 2, False), (1, False)]],
                                   [[(1, False), (0, False)]]],
                     mode := ''RGB''\<rparr>))"
proof -
  have a: "mode ex_la \<noteq> ''P'' \<and> mode ex_la \<noteq> ''PA''" by (simp add: ex_la_def)
  have v: "map finalize_chn (channels ex_la) = [[[(51, True)]], [[(64, False)]]]"
    "map_option (map (\<lambda>col. py_int (col * 255))) (fill_value ex_la) = Some [0, 510]"
    by code_simp+
  have b: "mode ex_p = ''P'' \<and> finalize ex_p =
     Some (Inr (ex_p\<lparr>channels := [[[(0, False), (1, False)]], [[(1 / 2, False), (1, False)]],
                                   [[(1, False), (0, False)]]],
                     mode := ''RGB''\<rparr>,
                [[[(0, False), (255, False)]], [[(128, False), (255, False)]],
                 [[(255, False), (0, False)]]],
                None))"
    by code_simp
  from finalize_frame [of ex_la] a v finalize_frame [of ex_p, OF] b
  show ?thesis by auto
qed



section \<open>Merging\<close>

lemma merge_chn_nth:
  assumes "merge_chn sm oc sc = Inr c" and "i < length sm" and "j < length (sm ! i)"
  shows "c ! i ! j = (if sm ! i ! j then fst (oc ! i ! j) else fst (sc ! i ! j),
                      sm ! i ! j \<and> snd (oc ! i ! j))"
proof -
  from assms(1) have so: "same_shape sm oc" and ss: "same_shape sm sc"
    and c: "c = grid_map2 (\<lambda>s ((ov, om), (sv, sm)). (if s then ov else sv, s \<and> om))
                  sm (grid_map2 Pair oc sc)"
    by (auto simp: merge_chn_def split: if_splits)
  have os: "same_shape oc sc" using same_shape_sym [OF so] ss by (rule same_shape_trans)
  have sp: "same_shape sm (grid_map2 Pair oc sc)"
    using so same_shape_sym [OF same_shape_grid_map2 [OF os]] by (rule same_shape_trans)
  from assms(2,3) same_shape_length [OF so] same_shape_row [OF so, of i]
  have ij: "i < length oc" "j < length (oc ! i)" by simp_all
  show ?thesis
    unfolding c grid_map2_nth [OF sp assms(2,3)] grid_map2_nth [OF os ij]
    by (simp add: case_prod_beta)
qed

lemma merge_chn_shape:
  assumes "merge_chn sm oc sc = Inr c"
  shows "same_shape c sm" "same_shape oc sm" "same_shape sc sm"
proof -
  from assms(1) have so: "same_shape sm oc" and ss: "same_shape sm sc"
    and c: "c = grid_map2 (\<lambda>s ((ov, om), (sv, sm)). (if s then ov else sv, s \<and> om))
                  sm (grid_map2 Pair oc sc)"
    by (auto simp: merge_chn_def split: if_splits)
  have os: "same_shape oc sc" using same_shape_sym [OF so] ss by (rule same_shape_trans)
  have sp: "same_shape sm (grid_map2 Pair oc sc)"
    using so same_shape_sym [OF same_shape_grid_map2 [OF os]] by (rule same_shape_trans)
  show "same_shape c sm" unfolding c by (rule same_shape_grid_map2 [OF sp])
  show "same_shape oc sm" using so by (rule same_shape_sym)
  show "same_shape sc sm" using ss by (rule same_shape_sym)
qed

text \<open>The loop of merge after \<open>n\<close> iterations.\<close>

lemma merge_loop:
  assumes "foldM_err (\<lambda>i chs.
             bind_err (item others i) (\<lambda>oc.
             bind_err (item chs i) (\<lambda>sc.
             bind_err (merge_chn sm oc sc) (\<lambda>c. Inr (chs[i := c])))))
             [0..<n] chs0 = Inr chs"
    and "n \<le> length chs0"
  shows "length chs = length chs0 \<and>
    (\<forall>k < n. k < length others \<and> merge_chn sm (others ! k) (chs0 ! k) = Inr (chs ! k)) \<and>
    (\<forall>k. n \<le> k \<and> k < length chs0 \<longrightarrow> chs ! k = chs0 ! k)"
  using assms
proof (induction n arbitrary: chs)
  case 0
  then show ?case by simp
next
  case (Suc n)
  let ?step = "\<lambda>i chs.
             bind_err (item others i) (\<lambda>oc.
             bind_err (item chs i) (\<lambda>sc.
             bind_err (merge_chn sm oc sc) (\<lambda>c. Inr (chs[i := c]))))"
  from Suc.prems(1) obtain mid where mid: "foldM_err ?step [0..<n] chs0 = Inr mid"
    and last: "?step n mid = Inr chs"
    by (auto simp: foldM_err_append bind_err_Inr_iff)
  from Suc.prems(2) have n: "n \<le> length chs0" "n < length chs0" by simp_all
  from Suc.IH [OF mid n(1)]
  have IH1: "length mid = length chs0"
    and IH2: "\<forall>k < n. k < length others \<and> merge_chn sm (others ! k) (chs0 ! k) = Inr (mid ! k)"
    and IH3: "\<forall>k. n \<le> k \<and> k < length chs0 \<longrightarrow> mid ! k = chs0 ! k"
    by blast+
  from last obtain c where no: "n < length others"
    and c: "merge_chn sm (others ! n) (mid ! n) = Inr c" and chs: "chs = mid[n := c]"
    by (auto simp: bind_err_Inr_iff item_def split: if_splits)
  from IH3 n have midn: "mid ! n = chs0 ! n" by simp
  have a: "length chs = length chs0" by (simp add: chs IH1)
  have b: "\<forall>k < Suc n. k < length others \<and>
      merge_chn sm (others ! k) (chs0 ! k) = Inr (chs ! k)"
    using IH2 no c midn n IH1 by (auto simp: chs less_Suc_eq nth_list_update)
  have d: "\<forall>k. Suc n \<le> k \<and> k < length chs0 \<longrightarrow> chs ! k = chs0 ! k"
    using IH3 by (auto simp: chs)
  from a b d show ?case by blast
qed

text \<open>
  C1, as the code has it. \<^verbatim>\<open>selfmask\<close> is built with \<^verbatim>\<open>np.ma.mask_or\<close>: it
  is the disjunction of the masks of the image's channels. When \<^verbatim>\<open>merge\<close> returns,
  only the channels have changed and there are as many as before; at a position where
  every channel of the image is valid, every channel keeps its value and stays valid; at a
  position where at least one channel of the image is masked, every channel takes the
  value and the mask flag of the other image's channel.
\<close>

theorem merge_override:
  assumes "merge img other = Inr res"
  shows "res = img\<lparr>channels := channels res\<rparr> \<and>
    length (channels res) = length (channels img) \<and>
    (\<forall>k i j. k < length (channels img) \<and> i < length (channels img ! k) \<and>
        j < length (channels img ! k ! i) \<longrightarrow>
        channels res ! k ! i ! j =
          (if \<exists>c \<in> set (channels img). snd (c ! i ! j)
           then channels other ! k ! i ! j else channels img ! k ! i ! j))"
proof -
  let ?step = "\<lambda>i chs.
             bind_err (item (channels other) i) (\<lambda>oc.
             bind_err (item chs i) (\<lambda>sc.
             bind_err (merge_chn sm oc sc) (\<lambda>c. Inr (chs[i := c]))))"
  from assms obtain c0 sm chs where ne: "channels img \<noteq> []"
    and c0: "c0 = channels img ! 0"
    and sm: "mask_or_all (msk c0) (drop 1 (channels img)) = Inr sm"
    and loop: "foldM_err (\<lambda>i chs.
             bind_err (item (channels other) i) (\<lambda>oc.
             bind_err (item chs i) (\<lambda>sc.
             bind_err (merge_chn sm oc sc) (\<lambda>c. Inr (chs[i := c])))))
             [0..<length (channels img)] (channels img) = Inr chs"
    and res: "res = img\<lparr>channels := chs\<rparr>"
    by (auto simp: merge_def bind_err_Inr_iff item_def split: if_splits)
  from ne c0 have chans: "channels img = c0 # drop 1 (channels img)"
    by (cases "channels img") simp_all
  from mask_or_all_spec [OF sm]
  have sm_shape: "same_shape sm (msk c0)"
    and sm_val: "\<forall>i j. i < length (msk c0) \<and> j < length (msk c0 ! i) \<longrightarrow>
       sm ! i ! j = (msk c0 ! i ! j \<or> (\<exists>c \<in> set (drop 1 (channels img)). snd (c ! i ! j)))"
    by blast+
  from merge_loop [OF loop]
  have len: "length chs = length (channels img)"
    and each: "\<forall>k < length (channels img). k < length (channels other) \<and>
        merge_chn sm (channels other ! k) (channels img ! k) = Inr (chs ! k)"
    by simp_all
  have sm_c0: "same_shape sm c0" using sm_shape by (simp add: msk_def)
  have px: "channels res ! k ! i ! j =
          (if \<exists>c \<in> set (channels img). snd (c ! i ! j)
           then channels other ! k ! i ! j else channels img ! k ! i ! j)"
    if kij: "k < length (channels img) \<and> i < length (channels img ! k) \<and>
        j < length (channels img ! k ! i)" for k i j
  proof -
    from each kij have m: "merge_chn sm (channels other ! k) (channels img ! k) = Inr (chs ! k)"
      by simp
    have sk: "same_shape (channels img ! k) sm" by (rule merge_chn_shape(3) [OF m])
    from kij same_shape_length [OF sk] same_shape_row [OF sk, of i]
    have ij: "i < length sm" "j < length (sm ! i)" by simp_all
    from ij same_shape_length [OF sm_c0] same_shape_row [OF sm_c0, of i]
    have ij0: "i < length c0" "j < length (c0 ! i)" by simp_all
    then have "sm ! i ! j = (snd (c0 ! i ! j) \<or> (\<exists>c \<in> set (drop 1 (channels img)). snd (c ! i ! j)))"
      using sm_val by (simp add: msk_nth)
    then have smv: "sm ! i ! j = (\<exists>c \<in> set (channels img). snd (c ! i ! j))"
      by (subst chans) simp
    from kij have mem: "channels img ! k \<in> set (channels img)" by simp
    show ?thesis
    proof (cases "sm ! i ! j")
      case True
      with merge_chn_nth [OF m ij] smv show ?thesis by (simp add: res)
    next
      case False
      with smv mem have "\<not> snd (channels img ! k ! i ! j)" by blast
      with False merge_chn_nth [OF m ij] smv show ?thesis
        by (simp add: res prod_eq_iff)
    qed
  qed
  have a: "res = img\<lparr>channels := channels res\<rparr>" by (simp add: res)
  have b: "length (channels res) = length (channels img)" by (simp add: res len)
  from a b px show ?thesis by blast
qed

theorem merge_override_witness:
  "merge ex_la ex_la_other = Inr (ex_la\<lparr>channels := channels ex_la_other\<rparr>) \<and>
   channels ex_la_other ! 1 ! 0 ! 0 =
     (if \<exists>c \<in> set (channels ex_la). snd (c ! 0 ! 0)
      then channels ex_la_other ! 1 ! 0 ! 0 else channels ex_la ! 1 ! 0 ! 0)"
proof -
  have m: "merge ex_la ex_la_other = Inr (ex_la\<lparr>channels := channels ex_la_other\<rparr>)"
    by code_simp
  have r: "1 < length (channels ex_la) \<and> 0 < length (channels ex_la ! 1) \<and>
      0 < length (channels ex_la ! 1 ! 0)"
    by (simp add: ex_la_def)
  from merge_override [OF m, THEN conjunct2, THEN conjunct2, rule_format, OF r] m
  show ?thesis by simp
qed

text \<open>
  The claim as stated fails where some channel is valid and another is not: the first
  channel of \<open>ex_la\<close> is masked at the only pixel, the alpha channel is valid there
  with the value \<open>1/4\<close>, and \<^verbatim>\<open>merge\<close> replaces both channels by the other
  image's, alpha included.
\<close>

theorem merge_overrides_valid_channel:
  "channels ex_la = [[[(1 / 5, True)]], [[(1 / 4, False)]]] \<and>
   channels ex_la_other = [[[(7 / 10, False)]], [[(3 / 10, False)]]] \<and>
   mode ex_la = mode ex_la_other \<and>
   merge ex_la ex_la_other =
     Inr (ex_la\<lparr>channels := [[[(7 / 10, False)]], [[(3 / 10, False)]]]\<rparr>)"
  by code_simp



section \<open>Gamma correction and stretching\<close>

lemma grid_mapM_lift_value:
  assumes "grid_mapM (lift_value f) chn = Inr c"
  shows "same_shape c chn \<and>
    (\<forall>i j. i < length chn \<and> j < length (chn ! i) \<longrightarrow>
       f (fst (chn ! i ! j)) = Some (fst (c ! i ! j)) \<and> snd (c ! i ! j) = snd (chn ! i ! j))"
proof -
  from mapM_err_Inr [OF assms [unfolded grid_mapM_def]]
  have len: "length c = length chn"
    and rows: "\<forall>i < length chn. mapM_err (lift_value f) (chn ! i) = Inr (c ! i)"
    by simp_all
  have row: "length (c ! i) = length (chn ! i) \<and>
      (\<forall>j < length (chn ! i). lift_value f (chn ! i ! j) = Inr (c ! i ! j))"
    if "i < length chn" for i
    using rows that mapM_err_Inr [of "lift_value f" "chn ! i" "c ! i"] by simp
  have "map length c = map length chn"
    by (rule nth_equalityI) (simp_all add: len row)
  then have a: "same_shape c chn" by (simp add: same_shape_def)
  have b: "f (fst (chn ! i ! j)) = Some (fst (c ! i ! j)) \<and> snd (c ! i ! j) = snd (chn ! i ! j)"
    if "i < length chn \<and> j < length (chn ! i)" for i j
  proof -
    from row that have "lift_value f (chn ! i ! j) = Inr (c ! i ! j)" by simp
    then show ?thesis
      by (cases "chn ! i ! j"; cases "c ! i ! j")
        (auto simp: lift_value_def split: option.splits)
  qed
  from a b show ?thesis by blast
qed

lemma grid_mapM_error:
  "grid_mapM (lift_value f) chn = Inl e \<Longrightarrow> e = Unmodelled"
proof -
  assume "grid_mapM (lift_value f) chn = Inl e"
  then obtain row where "mapM_err (lift_value f) row = Inl e"
    unfolding grid_mapM_def by (auto dest: mapM_err_Inl)
  then obtain px where "lift_value f px = Inl e"
    by (auto dest: mapM_err_Inl)
  then show ?thesis
    by (cases px) (auto simp: lift_value_def split: option.splits)
qed

lemma gamma_chn_error:
  "gamma_chn ev g chn = Inl e \<Longrightarrow>
     e = Unmodelled \<or> (e = ZeroDivisionError \<and> \<not> numexpr ev \<and> g = 0)"
  by (auto simp: gamma_chn_def split: if_splits dest: grid_mapM_error)

text \<open>
  C10, as the code has it. The test \<^verbatim>\<open>gamma < 0\<close> rejects negative exponents only,
  so \<^verbatim>\<open>gamma(0)\<close> never raises the usage error. Without \<^verbatim>\<open>numexpr\<close>, on an
  image with at least one channel, the first iteration evaluates \<^verbatim>\<open>1.0 / gamma\<close> in
  Python and raises \<^verbatim>\<open>ZeroDivisionError\<close>. With \<^verbatim>\<open>numexpr\<close> the division is
  part of the expression string that the library evaluates, and the method does not raise
  \<^verbatim>\<open>ZeroDivisionError\<close>.
\<close>

theorem gamma_zero:
  assumes "channels img \<noteq> []"
  shows "(\<not> numexpr ev \<longrightarrow> gamma ev img (GammaScalar 0) = Inl ZeroDivisionError) \<and>
    (numexpr ev \<longrightarrow> gamma ev img (GammaScalar 0) \<noteq> Inl ZeroDivisionError) \<and>
    gamma ev img (GammaScalar 0) \<noteq> Inl ValueError \<and>
    (g < 0 \<longrightarrow> gamma ev img (GammaScalar g) = Inl ValueError)"
proof -
  let ?n = "length (channels img)"
  from assms have n: "[0..<?n] = 0 # [1..<?n]" by (simp add: upt_rec)
  have first: "gamma_step ev (replicate ?n 0) 0 img = Inl ZeroDivisionError" if "\<not> numexpr ev"
    using that assms by (simp add: gamma_step_def gamma_chn_def)
  have a: "gamma ev img (GammaScalar 0) = Inl ZeroDivisionError" if "\<not> numexpr ev"
    using first [OF that] by (simp add: gamma_def n)
  have err: "e = Unmodelled \<or> (e = ZeroDivisionError \<and> \<not> numexpr ev)"
    if "gamma ev img (GammaScalar 0) = Inl e" for e
  proof -
    from that obtain i t where i: "i < ?n" and "gamma_step ev (replicate ?n 0) i t = Inl e"
      by (auto simp: gamma_def dest: foldM_err_Inl)
    then show ?thesis
      by (auto simp: gamma_step_def bind_err_def split: sum.splits dest: gamma_chn_error)
  qed
  have b: "gamma ev img (GammaScalar 0) \<noteq> Inl ZeroDivisionError" if "numexpr ev"
    using err [of ZeroDivisionError] that by auto
  have c: "gamma ev img (GammaScalar 0) \<noteq> Inl ValueError"
    using err [of ValueError] by auto
  have d: "gamma ev img (GammaScalar g) = Inl ValueError" if "g < 0"
    using that assms by (simp add: gamma_def n gamma_step_def)
  from a b c d show ?thesis by blast
qed

theorem gamma_zero_witness:
  "gamma ex_env ex_la (GammaScalar 0) = Inl ZeroDivisionError \<and>
   gamma ex_env_ne ex_la (GammaScalar 0) \<noteq> Inl ValueError \<and>
   gamma ex_env ex_la (GammaScalar (- 1)) = Inl ValueError"
proof -
  have ne: "channels ex_la \<noteq> []" by (simp add: ex_la_def)
  have e: "\<not> numexpr ex_env" by (simp add: ex_env_def)
  from gamma_zero [OF ne, of ex_env "- 1"] e gamma_zero [OF ne, of ex_env_ne]
  show ?thesis by simp
qed

text \<open>
  The claim as stated fails where \<^verbatim>\<open>numexpr\<close> is installed: \<^verbatim>\<open>gamma(0)\<close>
  returns, with every value below 1 sent to 0.
\<close>

theorem gamma_zero_numexpr:
  "numexpr ex_env_ne \<and> channels ex_la = [[[(1 / 5, True)]], [[(1 / 4, False)]]] \<and>
   gamma ex_env_ne ex_la (GammaScalar 0) =
     Inr (ex_la\<lparr>channels := [[[(0, True)]], [[(0, False)]]]\<rparr>)"
  by code_simp



lemma stretch_Inr_cases:
  assumes "stretch ev img s kw = Inr img'"
  obtains
    (cutoffs) xs where
      "foldM_err (\<lambda>i im. call_stretch_cutoffs im i xs kw)
         [0..<length (channels img) - (if endswith_A (mode img) then 1 else 0)] img = Inr img'"
  | (linear)
      "foldM_err (\<lambda>i im. call_stretch_linear im i kw)
         [0..<length (channels img) - (if endswith_A (mode img) then 1 else 0)] img = Inr img'"
  | (histogram)
      "foldM_err (\<lambda>i im. call_hist_equalize ev im i kw)
         [0..<length (channels img) - (if endswith_A (mode img) then 1 else 0)] img = Inr img'"
  | (crude)
      "foldM_err (\<lambda>i im. call_crude_stretch im i kw)
         [0..<length (channels img) - (if endswith_A (mode img) then 1 else 0)] img = Inr img'"
  | (log)
      "foldM_err (\<lambda>i im. call_logarithmic im i kw)
         [0..<length (channels img) - (if endswith_A (mode img) then 1 else 0)] img = Inr img'"
  | (no) "img' = img"
proof (cases s)
  case (StretchSeq xs)
  with assms have "(if length xs = 2
             then foldM_err (\<lambda>i im. call_stretch_cutoffs im i xs kw)
                [0..<length (channels img) - (if endswith_A (mode img) then 1 else 0)] img
             else Inl ValueError) = Inr img'"
    unfolding stretch_def Let_def by (simp only: stretch_arg.case)
  then show ?thesis by (cases "length xs = 2") (simp_all add: cutoffs)
next
  case (StretchStr name)
  let ?n = "length (channels img) - (if endswith_A (mode img) then 1 else 0)"
  from assms have eq: "(if name = ''linear''
             then foldM_err (\<lambda>i im. call_stretch_linear im i kw) [0..<?n] img
             else if name = ''histogram''
             then foldM_err (\<lambda>i im. call_hist_equalize ev im i kw) [0..<?n] img
             else if name \<in> set [''crude'', ''crude-stretch'']
             then foldM_err (\<lambda>i im. call_crude_stretch im i kw) [0..<?n] img
             else if name \<in> set [''log'', ''logarithmic'']
             then foldM_err (\<lambda>i im. call_logarithmic im i kw) [0..<?n] img
             else if name = ''no'' then Inr img
             else Inl ValueError) = Inr img'"
    unfolding stretch_def Let_def StretchStr by (simp only: stretch_arg.case)
  show ?thesis
  proof (cases "name = ''linear''")
    case True
    with eq show ?thesis by (simp add: linear)
  next
    case f1: False
    show ?thesis
    proof (cases "name = ''histogram''")
      case True
      with eq f1 show ?thesis by (simp add: histogram)
    next
      case f2: False
      show ?thesis
      proof (cases "name \<in> set [''crude'', ''crude-stretch'']")
        case True
        with eq f1 f2 show ?thesis by (simp add: crude)
      next
        case f3: False
        show ?thesis
        proof (cases "name \<in> set [''log'', ''logarithmic'']")
          case True
          with eq f1 f2 f3 show ?thesis by (simp add: log)
        next
          case f4: False
          show ?thesis
          proof (cases "name = ''no''")
            case True
            with eq f1 f2 f3 f4 have "Inr img = (Inr img' :: error + image)"
              by simp
            then show ?thesis by (simp add: no)
          next
            case False
            with eq f1 f2 f3 f4 have "Inl ValueError = (Inr img' :: error + image)"
              by simp
            then show ?thesis by simp
          qed
        qed
      qed
    qed
  qed
next
  case StretchOther
  with assms show ?thesis by (simp add: stretch_def Let_def)
qed

text \<open>What a per-channel method may change: the channel at its index.\<close>

lemma stretch_linear_frame:
  "stretch_linear img i c = Inr img' \<Longrightarrow>
     img' = img \<or> (\<exists>chn. img' = img\<lparr>channels := (channels img)[i := chn]\<rparr>)"
  by (auto simp: stretch_linear_def bind_err_Inr_iff Let_def split: if_splits prod.splits)

lemma stretch_hist_equalize_frame:
  "stretch_hist_equalize ev img i = Inr img' \<Longrightarrow>
     img' = img \<or> (\<exists>chn. img' = img\<lparr>channels := (channels img)[i := chn]\<rparr>)"
  by (auto simp: stretch_hist_equalize_def bind_err_Inr_iff Let_def split: if_splits)

lemma stretch_logarithmic_frame:
  "stretch_logarithmic img i f = Inr img' \<Longrightarrow>
     img' = img \<or> (\<exists>chn. img' = img\<lparr>channels := (channels img)[i := chn]\<rparr>)"
  by (auto simp: stretch_logarithmic_def bind_err_Inr_iff Let_def split: if_splits kwval.splits)

lemma crude_stretch_frame:
  "crude_stretch img i lo hi = Inr img' \<Longrightarrow>
     img' = img \<or> (\<exists>chn. img' = img\<lparr>channels := (channels img)[i := chn]\<rparr>)"
  by (auto simp: crude_stretch_def bind_err_Inr_iff Let_def split: if_splits bound.splits)

lemma call_stretch_cutoffs_frame:
  "call_stretch_cutoffs img i xs kw = Inr img' \<Longrightarrow>
     img' = img \<or> (\<exists>chn. img' = img\<lparr>channels := (channels img)[i := chn]\<rparr>)"
  by (auto simp: call_stretch_cutoffs_def split: if_splits dest: stretch_linear_frame)

lemma call_stretch_linear_frame:
  "call_stretch_linear img i kw = Inr img' \<Longrightarrow>
     img' = img \<or> (\<exists>chn. img' = img\<lparr>channels := (channels img)[i := chn]\<rparr>)"
  by (auto simp: call_stretch_linear_def split: if_splits dest: stretch_linear_frame)

lemma call_hist_equalize_frame:
  "call_hist_equalize ev img i kw = Inr img' \<Longrightarrow>
     img' = img \<or> (\<exists>chn. img' = img\<lparr>channels := (channels img)[i := chn]\<rparr>)"
  by (auto simp: call_hist_equalize_def split: if_splits dest: stretch_hist_equalize_frame)

lemma call_crude_stretch_frame:
  "call_crude_stretch img i kw = Inr img' \<Longrightarrow>
     img' = img \<or> (\<exists>chn. img' = img\<lparr>channels := (channels img)[i := chn]\<rparr>)"
  by (auto simp: call_crude_stretch_def split: if_splits dest: crude_stretch_frame)

lemma call_logarithmic_frame:
  "call_logarithmic img i kw = Inr img' \<Longrightarrow>
     img' = img \<or> (\<exists>chn. img' = img\<lparr>channels := (channels img)[i := chn]\<rparr>)"
  by (auto simp: call_logarithmic_def split: if_splits dest: stretch_logarithmic_frame)

lemma stretch_loop_frame:
  assumes loop: "foldM_err f [0..<n] img = Inr img'"
    and step: "\<And>i t t'. f i t = Inr t' \<Longrightarrow>
      t' = t \<or> (\<exists>chn. t' = t\<lparr>channels := (channels t)[i := chn]\<rparr>)"
  shows "mode img' = mode img \<and> length (channels img') = length (channels img) \<and>
    (\<forall>k. n \<le> k \<longrightarrow> channels img' ! k = channels img ! k)"
proof (rule foldM_err_invariant [OF loop])
  show "mode img = mode img \<and> length (channels img) = length (channels img) \<and>
    (\<forall>k. n \<le> k \<longrightarrow> channels img ! k = channels img ! k)"
    by simp
next
  fix i t t'
  assume i: "i \<in> set [0..<n]"
    and P: "mode t = mode img \<and> length (channels t) = length (channels img) \<and>
      (\<forall>k. n \<le> k \<longrightarrow> channels t ! k = channels img ! k)"
    and f: "f i t = Inr t'"
  from step [OF f] i P
  show "mode t' = mode img \<and> length (channels t') = length (channels img) \<and>
    (\<forall>k. n \<le> k \<longrightarrow> channels t' ! k = channels img ! k)"
    by auto
qed

lemma stretch_frame:
  assumes "stretch ev img s kw = Inr img'"
  shows "mode img' = mode img \<and> length (channels img') = length (channels img) \<and>
    (\<forall>k. length (channels img) - (if endswith_A (mode img) then 1 else 0) \<le> k \<longrightarrow>
       channels img' ! k = channels img ! k)"
  using assms
proof (cases rule: stretch_Inr_cases)
  case (cutoffs xs)
  then show ?thesis by (rule stretch_loop_frame) (rule call_stretch_cutoffs_frame)
next
  case linear
  then show ?thesis by (rule stretch_loop_frame) (rule call_stretch_linear_frame)
next
  case histogram
  then show ?thesis by (rule stretch_loop_frame) (rule call_hist_equalize_frame)
next
  case crude
  then show ?thesis by (rule stretch_loop_frame) (rule call_crude_stretch_frame)
next
  case log
  then show ?thesis by (rule stretch_loop_frame) (rule call_logarithmic_frame)
next
  case no
  then show ?thesis by simp
qed

lemma gamma_loop:
  assumes "foldM_err (gamma_step ev gl) [0..<n] img = Inr img'"
    and "n \<le> length (channels img)"
  shows "img' = img\<lparr>channels := channels img'\<rparr> \<and>
    length (channels img') = length (channels img) \<and>
    (\<forall>k < n. (gl ! k = 1 \<longrightarrow> channels img' ! k = channels img ! k) \<and>
       (gl ! k \<noteq> 1 \<longrightarrow> gamma_chn ev (gl ! k) (channels img ! k) = Inr (channels img' ! k))) \<and>
    (\<forall>k. n \<le> k \<longrightarrow> channels img' ! k = channels img ! k)"
  using assms
proof (induction n arbitrary: img')
  case 0
  then show ?case by simp
next
  case (Suc n)
  from Suc.prems(1) obtain mid where mid: "foldM_err (gamma_step ev gl) [0..<n] img = Inr mid"
    and last: "gamma_step ev gl n mid = Inr img'"
    by (auto simp: foldM_err_append bind_err_Inr_iff)
  from Suc.prems(2) have n: "n \<le> length (channels img)" "n < length (channels img)"
    by simp_all
  from Suc.IH [OF mid n(1)]
  have IH0: "mid = img\<lparr>channels := channels mid\<rparr>"
    and IH1: "length (channels mid) = length (channels img)"
    and IH2: "\<forall>k < n. (gl ! k = 1 \<longrightarrow> channels mid ! k = channels img ! k) \<and>
       (gl ! k \<noteq> 1 \<longrightarrow> gamma_chn ev (gl ! k) (channels img ! k) = Inr (channels mid ! k))"
    and IH3: "\<forall>k. n \<le> k \<longrightarrow> channels mid ! k = channels img ! k"
    by blast+
  from IH3 have midn: "channels mid ! n = channels img ! n" by simp
  from last consider (one) "gl ! n = 1" "img' = mid"
    | (pow) c where "gl ! n \<noteq> 1" "gamma_chn ev (gl ! n) (channels mid ! n) = Inr c"
        "img' = mid\<lparr>channels := (channels mid)[n := c]\<rparr>"
    by (auto simp: gamma_step_def Let_def bind_err_Inr_iff split: if_splits)
  then show ?case
  proof cases
    case one
    with IH0 IH1 IH2 IH3 midn show ?thesis
      by (auto simp: less_Suc_eq)
  next
    case pow
    from arg_cong [OF IH0, of "\<lambda>x. x\<lparr>channels := (channels mid)[n := c]\<rparr>"] pow(3)
    have "img' = img\<lparr>channels := (channels mid)[n := c]\<rparr>" by simp
    then have a: "img' = img\<lparr>channels := channels img'\<rparr>" by simp
    have b: "length (channels img') = length (channels img)"
      by (simp add: pow(3) IH1)
    have c: "\<forall>k < Suc n. (gl ! k = 1 \<longrightarrow> channels img' ! k = channels img ! k) \<and>
       (gl ! k \<noteq> 1 \<longrightarrow> gamma_chn ev (gl ! k) (channels img ! k) = Inr (channels img' ! k))"
      using IH2 pow(1,2) midn n IH1 by (auto simp: pow(3) less_Suc_eq nth_list_update)
    have d: "\<forall>k. Suc n \<le> k \<longrightarrow> channels img' ! k = channels img ! k"
      using IH3 by (auto simp: pow(3))
    from a b c d show ?thesis by blast
  qed
qed

lemma gamma_chn_values:
  assumes "gamma_chn ev g chn = Inr c"
  shows "same_shape c chn \<and>
    (\<forall>i j. i < length chn \<and> j < length (chn ! i) \<longrightarrow>
       (if numexpr ev then ne_power (fst (chn ! i ! j)) g else np_power (fst (chn ! i ! j)) (1 / g))
         = Some (fst (c ! i ! j)) \<and>
       snd (c ! i ! j) = snd (chn ! i ! j))"
proof (cases "numexpr ev")
  case True
  with assms have "grid_mapM (lift_value (\<lambda>v. ne_power v g)) chn = Inr c"
    by (simp add: gamma_chn_def)
  from grid_mapM_lift_value [OF this] True show ?thesis by simp
next
  case False
  with assms have "grid_mapM (lift_value (\<lambda>v. np_power v (1 / g))) chn = Inr c"
    by (simp add: gamma_chn_def split: if_splits)
  from grid_mapM_lift_value [OF this] False show ?thesis by simp
qed

text \<open>
  C3, as the code has it. On an image whose mode ends in \<^verbatim>\<open>A\<close>, every variant of
  \<^verbatim>\<open>stretch\<close> that returns leaves the mode, the number of channels and the last
  channel (values and mask) as they were: its loops stop before the last index.
  \<^verbatim>\<open>gamma\<close> with a scalar argument changes nothing but the channels and treats
  every channel alike, the alpha channel included: no mask flag changes, with
  \<^verbatim>\<open>gamma == 1\<close> no value changes, and otherwise every value \<open>v\<close> of every
  channel becomes \<^verbatim>\<open>v ** (1.0 / gamma)\<close>.
\<close>

theorem stretch_gamma_alpha:
  "(endswith_A (mode img) \<and> channels img \<noteq> [] \<and> stretch ev img s kw = Inr img1 \<longrightarrow>
      mode img1 = mode img \<and> length (channels img1) = length (channels img) \<and>
      last (channels img1) = last (channels img)) \<and>
   (gamma ev img (GammaScalar g) = Inr img2 \<longrightarrow>
      img2 = img\<lparr>channels := channels img2\<rparr> \<and>
      length (channels img2) = length (channels img) \<and>
      (\<forall>k i j. k < length (channels img) \<and> i < length (channels img ! k) \<and>
          j < length (channels img ! k ! i) \<longrightarrow>
          snd (channels img2 ! k ! i ! j) = snd (channels img ! k ! i ! j) \<and>
          (g = 1 \<longrightarrow> fst (channels img2 ! k ! i ! j) = fst (channels img ! k ! i ! j)) \<and>
          (g \<noteq> 1 \<longrightarrow>
             Some (fst (channels img2 ! k ! i ! j)) =
               (if numexpr ev then ne_power (fst (channels img ! k ! i ! j)) g
                else np_power (fst (channels img ! k ! i ! j)) (1 / g)))))"
proof (rule conjI [OF impI impI])
  assume h: "endswith_A (mode img) \<and> channels img \<noteq> [] \<and> stretch ev img s kw = Inr img1"
  from h stretch_frame [of ev img s kw img1]
  have m: "mode img1 = mode img" and len: "length (channels img1) = length (channels img)"
    and fr: "\<forall>k. length (channels img) - 1 \<le> k \<longrightarrow> channels img1 ! k = channels img ! k"
    by simp_all
  from h len have ne: "channels img \<noteq> []" "channels img1 \<noteq> []" by auto
  from fr have "channels img1 ! (length (channels img) - 1) = channels img ! (length (channels img) - 1)"
    by simp
  with ne len have l: "last (channels img1) = last (channels img)"
    by (simp add: last_conv_nth)
  from m len l show "mode img1 = mode img \<and> length (channels img1) = length (channels img) \<and>
      last (channels img1) = last (channels img)"
    by simp
next
  assume h: "gamma ev img (GammaScalar g) = Inr img2"
  let ?n = "length (channels img)"
  from h have loop: "foldM_err (gamma_step ev (replicate ?n g)) [0..<?n] img = Inr img2"
    by (simp add: gamma_def)
  from gamma_loop [OF loop]
  have a: "img2 = img\<lparr>channels := channels img2\<rparr>"
    and b: "length (channels img2) = length (channels img)"
    and c: "\<forall>k < ?n. (g = 1 \<longrightarrow> channels img2 ! k = channels img ! k) \<and>
       (g \<noteq> 1 \<longrightarrow> gamma_chn ev g (channels img ! k) = Inr (channels img2 ! k))"
    by simp_all
  have px: "snd (channels img2 ! k ! i ! j) = snd (channels img ! k ! i ! j) \<and>
          (g = 1 \<longrightarrow> fst (channels img2 ! k ! i ! j) = fst (channels img ! k ! i ! j)) \<and>
          (g \<noteq> 1 \<longrightarrow>
             Some (fst (channels img2 ! k ! i ! j)) =
               (if numexpr ev then ne_power (fst (channels img ! k ! i ! j)) g
                else np_power (fst (channels img ! k ! i ! j)) (1 / g)))"
    if kij: "k < length (channels img) \<and> i < length (channels img ! k) \<and>
          j < length (channels img ! k ! i)" for k i j
  proof (cases "g = 1")
    case True
    with c kij show ?thesis by simp
  next
    case False
    with c kij have "gamma_chn ev g (channels img ! k) = Inr (channels img2 ! k)" by simp
    from gamma_chn_values [OF this] kij False show ?thesis by simp
  qed
  from a b px show "img2 = img\<lparr>channels := channels img2\<rparr> \<and>
      length (channels img2) = length (channels img) \<and>
      (\<forall>k i j. k < length (channels img) \<and> i < length (channels img ! k) \<and>
          j < length (channels img ! k ! i) \<longrightarrow>
          snd (channels img2 ! k ! i ! j) = snd (channels img ! k ! i ! j) \<and>
          (g = 1 \<longrightarrow> fst (channels img2 ! k ! i ! j) = fst (channels img ! k ! i ! j)) \<and>
          (g \<noteq> 1 \<longrightarrow>
             Some (fst (channels img2 ! k ! i ! j)) =
               (if numexpr ev then ne_power (fst (channels img ! k ! i ! j)) g
                else np_power (fst (channels img ! k ! i ! j)) (1 / g))))"
    by blast
qed

lemma np_power_square: "np_power (1 / 4) 2 = Some (1 / 16)" "np_power (1 / 5) 2 = Some (1 / 25)"
  by (simp_all add: np_power_def power2_eq_square)

lemma gamma_ex_la_half:
  "gamma ex_env ex_la (GammaScalar (1 / 2)) =
     Inr (ex_la\<lparr>channels := [[[(1 / 25, True)]], [[(1 / 16, False)]]]\<rparr>)"
  by (simp add: ex_la_def ex_env_def gamma_def gamma_step_def gamma_chn_def grid_mapM_def
      lift_value_def np_power_square upt_rec numeral_2_eq_2)

text \<open>
  The claim as stated fails for \<^verbatim>\<open>gamma\<close>: on the \<^verbatim>\<open>LA\<close> image \<open>ex_la\<close>,
  \<^verbatim>\<open>gamma(0.5)\<close> squares the alpha value \<open>1/4\<close> as it squares the luminance.
\<close>

theorem gamma_changes_alpha:
  "mode ex_la = ''LA'' \<and> channels ex_la = [[[(1 / 5, True)]], [[(1 / 4, False)]]] \<and>
   gamma ex_env ex_la (GammaScalar (1 / 2)) =
     Inr (ex_la\<lparr>channels := [[[(1 / 25, True)]], [[(1 / 16, False)]]]\<rparr>)"
  using gamma_ex_la_half by (simp add: ex_la_def)

lemma stretch_crude_ex_la_wide: "stretch ex_env ex_la_wide (StretchStr ''crude'') [] =
     Inr (ex_la_wide\<lparr>channels := [[[(0, False), (1, False)]], [[(1 / 4, False), (1 / 2, True)]]]\<rparr>)"
  by (simp add: stretch_def ex_la_wide_def ex_env_def endswith_A_def call_crude_stretch_def
      kw_keys_ok_def kw_get_def crude_stretch_def item_def default_bound_def compressed_def
      list_min_def list_max_def index_bound_def grid_map_def)

theorem stretch_gamma_alpha_witness:
  "stretch ex_env ex_la_wide (StretchStr ''crude'') [] =
     Inr (ex_la_wide\<lparr>channels := [[[(0, False), (1, False)]], [[(1 / 4, False), (1 / 2, True)]]]\<rparr>) \<and>
   last (channels ex_la_wide) = [[(1 / 4, False), (1 / 2, True)]] \<and>
   gamma ex_env ex_la (GammaScalar (1 / 2)) =
     Inr (ex_la\<lparr>channels := [[[(1 / 25, True)]], [[(1 / 16, False)]]]\<rparr>) \<and>
   Some (1 / 16) = np_power (1 / 4) (1 / (1 / 2))"
proof -
  let ?R = "ex_la_wide\<lparr>channels := [[[(0, False), (1, False)]], [[(1 / 4, False), (1 / 2, True)]]]\<rparr>"
  let ?G = "ex_la\<lparr>channels := [[[(1 / 25, True)]], [[(1 / 16, False)]]]\<rparr>"
  have s: "stretch ex_env ex_la_wide (StretchStr ''crude'') [] = Inr ?R"
    by (rule stretch_crude_ex_la_wide)
  have h1: "endswith_A (mode ex_la_wide) \<and> channels ex_la_wide \<noteq> [] \<and>
      stretch ex_env ex_la_wide (StretchStr ''crude'') [] = Inr ?R"
    using s by (simp add: ex_la_wide_def endswith_A_def)
  from stretch_gamma_alpha [THEN conjunct1, rule_format, OF h1]
  have a: "last (channels ex_la_wide) = [[(1 / 4, False), (1 / 2, True)]]"
    by simp
  have g: "gamma ex_env ex_la (GammaScalar (1 / 2)) = Inr ?G"
    by (rule gamma_ex_la_half)
  have r: "1 < length (channels ex_la) \<and> 0 < length (channels ex_la ! 1) \<and>
      0 < length (channels ex_la ! 1 ! 0)"
    by (simp add: ex_la_def)
  from stretch_gamma_alpha [THEN conjunct2, rule_format, OF g, THEN conjunct2, THEN conjunct2,
      rule_format, OF r]
  have b: "Some (1 / 16) = np_power (1 / 4) (1 / (1 / 2))"
    by (simp add: ex_la_def ex_env_def)
  from s a g b show ?thesis by blast
qed

section \<open>The enhancement pipeline\<close>

text \<open>
  C9. For every environment, image and combination of arguments, \<^verbatim>\<open>enhance\<close>
  returns what the sequence \<^verbatim>\<open>invert\<close>, \<^verbatim>\<open>stretch\<close>, \<^verbatim>\<open>gamma\<close> returns:
  the same image when all three return, the same exception when one of them raises.
\<close>

theorem enhance_pipeline:
  "enhance ev img inv_arg g s stretch_parameters kw =
     spec_enhance ev img inv_arg g s stretch_parameters kw"
  by (simp add: enhance_def spec_enhance_def bind_err_def Let_def split: sum.splits)


end
